theory Spec2Isabelle
  imports Complex_Main "HOL-Library.AList" "HOL-Library.Char_ord" "HOL-Library.List_Lexorder"
begin

section \<open>Values, arrays and files\<close>

text \<open>
  The three scripts of the repository (01_check_and_move_smap.py, 02_aggregate_smap_he5.py,
  03_merge_yearly_daily.py) are embedded as pure functions. What the embedding fixes:
  \<^item> a floating-point number is \<open>NaN\<close> or a finite value \<open>Val x\<close> with \<open>x\<close> a real; the
    arithmetic of numpy on float32 is read as exact arithmetic on these values, so
    rounding, overflow and the infinities are outside the model;
  \<^item> a string is a list of bytes; \<open>\d\<close> is an ASCII digit and case folding is ASCII;
  \<^item> a 2-D array is the list of its rows, a 1-D array a list;
  \<^item> an HDF5 file is the table of its datasets; the directory scan (\<open>glob\<close>, \<open>rglob\<close>) is
    not modelled, the functions take the list of files the scan returned;
  \<^item> every exception of the source is a value of type \<open>error\<close>.
\<close>

datatype fval = NaN | Val real

datatype error =
    ValueError string
  | RuntimeError string
  | AssertionError string
  | KeyError string
  | IndexError
  | OSError

type_synonym arr1 = "fval list"
type_synonym arr2 = "fval list list"

record granule =
  hdfeos :: bool
  datasets :: "(string \<times> arr2) list"

record h5file =
  name :: string
  content :: "granule option"

section \<open>Strings\<close>

definition is_digit :: "char \<Rightarrow> bool" where
  "is_digit c = (c \<in> set ''0123456789'')"

definition digit_val :: "char \<Rightarrow> nat" where
  "digit_val c = (of_char c :: nat) - 48"

definition digit_char :: "nat \<Rightarrow> char" where
  "digit_char n = ''0123456789'' ! n"

fun nat_of_digits :: "string \<Rightarrow> nat" where
  "nat_of_digits [] = 0"
| "nat_of_digits (c # cs) = digit_val c * 10 ^ length cs + nat_of_digits cs"

fun dec_nat :: "nat \<Rightarrow> string" where
  "dec_nat n = (if n < 10 then [digit_char n] else dec_nat (n div 10) @ [digit_char (n mod 10)])"

declare dec_nat.simps [simp del]

definition zpad :: "nat \<Rightarrow> string \<Rightarrow> string" where
  "zpad w s = replicate (w - length s) (CHR ''0'') @ s"

text \<open>The format specification \<open>{n:02d}\<close>: the sign counts in the width.\<close>

definition fmt02d :: "int \<Rightarrow> string" where
  "fmt02d n = (if n < 0 then CHR ''-'' # zpad 1 (dec_nat (nat (- n))) else zpad 2 (dec_nat (nat n)))"

definition is_space :: "char \<Rightarrow> bool" where
  "is_space c = (c \<in> set [CHR '' '', CHR 0x09, CHR 0x0A, CHR 0x0B, CHR 0x0C, CHR 0x0D,
                            CHR 0x1C, CHR 0x1D, CHR 0x1E, CHR 0x1F])"

definition strip :: "string \<Rightarrow> string" where
  "strip s = rev (dropWhile is_space (rev (dropWhile is_space s)))"

text \<open>Digits with single underscores between them, as \<open>int()\<close> accepts them.\<close>

fun digits_us :: "string \<Rightarrow> bool" where
  "digits_us [] = False"
| "digits_us [c] = is_digit c"
| "digits_us (c # d # r) =
     (is_digit c \<and> (if d = CHR ''_'' then digits_us r else digits_us (d # r)))"

definition py_int :: "string \<Rightarrow> error + int" where
  "py_int s =
     (let t = strip s;
          neg = (t \<noteq> [] \<and> hd t = CHR ''-'');
          u = (if t \<noteq> [] \<and> (hd t = CHR ''-'' \<or> hd t = CHR ''+'') then tl t else t)
      in if digits_us u
         then Inr ((if neg then - 1 else 1) * int (nat_of_digits (filter (\<lambda>c. c \<noteq> CHR ''_'') u)))
         else Inl (ValueError ''invalid literal for int() with base 10''))"

definition startswith :: "string \<Rightarrow> string \<Rightarrow> bool" where
  "startswith s p = (take (length p) s = p)"

definition slice :: "nat \<Rightarrow> nat \<Rightarrow> 'a list \<Rightarrow> 'a list" where
  "slice i j xs = take (j - i) (drop i xs)"

definition lower_ch :: "char \<Rightarrow> char" where
  "lower_ch c =
     (case map_of (zip ''ABCDEFGHIJKLMNOPQRSTUVWXYZ'' ''abcdefghijklmnopqrstuvwxyz'') c of
        Some l \<Rightarrow> l | None \<Rightarrow> c)"

fun join :: "string \<Rightarrow> string list \<Rightarrow> string" where
  "join sep [] = []"
| "join sep [x] = x"
| "join sep (x # y # r) = x @ sep @ join sep (y # r)"

section \<open>01_check_and_move_smap.py\<close>

definition msg_before_march31 :: string where
  "msg_before_march31 =
     ''2015'' @ [CHR 0xE5, CHR 0xB9, CHR 0xB4, CHR 0xE6, CHR 0x97, CHR 0xA5, CHR 0xE6, CHR 0x9C,
                 CHR 0x9F, CHR 0xE6, CHR 0x97, CHR 0xA9, CHR 0xE4, CHR 0xBA, CHR 0x8E]
     @ ''3'' @ [CHR 0xE6, CHR 0x9C, CHR 0x88] @ ''31'' @ [CHR 0xE6, CHR 0x97, CHR 0xA5] @ '': ''"

definition msg_skip_invalid :: string where
  "msg_skip_invalid =
     [CHR 0xE8, CHR 0xB7, CHR 0xB3, CHR 0xE8, CHR 0xBF, CHR 0x87, CHR 0xE6, CHR 0x97, CHR 0xA0,
      CHR 0xE6, CHR 0x95, CHR 0x88, CHR 0xE6, CHR 0x97, CHR 0xA5, CHR 0xE6, CHR 0x9C, CHR 0x9F,
      CHR 0xE6, CHR 0x96, CHR 0x87, CHR 0xE4, CHR 0xBB, CHR 0xB6] @ '': ''"

definition days_in_month :: "int list" where
  "days_in_month = [31, 28, 31, 30, 31, 30, 31, 31, 30, 31, 30, 31]"

text \<open>
  \<open>adjust_2015_date\<close>. The day of the year and its offset from March 31 are computed and
  then not used: the string is rebuilt from the month and the day that were read.
\<close>

definition adjust_2015_date :: "string \<Rightarrow> error + string" where
  "adjust_2015_date day_str =
     (if \<not> startswith day_str ''2015'' then Inr day_str
      else (case py_int (slice 4 6 day_str) of Inl e \<Rightarrow> Inl e | Inr month \<Rightarrow>
           (case py_int (slice 6 8 day_str) of Inl e \<Rightarrow> Inl e | Inr day \<Rightarrow>
           (if month < 3 \<or> (month = 3 \<and> day < 31)
            then Inl (ValueError (msg_before_march31 @ day_str))
            else let day_of_year = sum_list (take (nat (month - 1)) days_in_month) + day;
                     new_day_of_year = day_of_year - 90 + 1;
                     new_month = month;
                     new_day = day
                 in Inr (''2015'' @ fmt02d new_month @ fmt02d new_day)))))"

text \<open>
  \<open>PATTERN = SMAP_L4_SM_gph_(\d{8})T(\d{6})_.*\.h(?:e)?5$\<close>, case-insensitive, used with
  \<open>search\<close>: the match at the leftmost position where one exists. \<open>.\<close> does not match
  a newline and \<open>$\<close> matches at the end or before a final newline.
\<close>

definition pattern_tail :: "string \<Rightarrow> bool" where
  "pattern_tail r =
     list_ex (\<lambda>k. CHR 0x0A \<notin> set (take k r) \<and>
                   map lower_ch (drop k r) \<in> set [''.h5'', ''.he5'', ''.h5'' @ [CHR 0x0A], ''.he5'' @ [CHR 0x0A]])
             [0..<Suc (length r)]"

definition pattern_at :: "string \<Rightarrow> (string \<times> string) option" where
  "pattern_at s =
     (let day = slice 15 23 s; utc = slice 24 30 s
      in if map lower_ch (take 15 s) = ''smap_l4_sm_gph_''
            \<and> length day = 8 \<and> list_all is_digit day
            \<and> map lower_ch (slice 23 24 s) = ''t''
            \<and> length utc = 6 \<and> list_all is_digit utc
            \<and> slice 30 31 s = ''_''
            \<and> pattern_tail (drop 31 s)
         then Some (day, utc) else None)"

fun pattern_search :: "string \<Rightarrow> (string \<times> string) option" where
  "pattern_search [] = pattern_at []"
| "pattern_search (c # cs) =
     (case pattern_at (c # cs) of Some g \<Rightarrow> Some g | None \<Rightarrow> pattern_search cs)"

type_synonym by_day = "(string \<times> (string \<times> h5file) list) list"

definition append_day :: "string \<Rightarrow> string \<times> h5file \<Rightarrow> by_day \<Rightarrow> by_day" where
  "append_day day item bd =
     AList.update day ((case map_of bd day of None \<Rightarrow> [] | Some l \<Rightarrow> l) @ [item]) bd"

text \<open>
  \<open>gather_files\<close>, as a loop over the files \<open>rglob\<close> returned; the state is the
  dictionary \<open>by_day\<close> and the lines printed so far. \<open>year\<close> is the constant \<open>YEAR\<close>.
  Only a \<open>ValueError\<close> is caught; any other exception would leave the function.
\<close>

fun gather_loop :: "string \<Rightarrow> h5file list \<Rightarrow> by_day \<times> string list \<Rightarrow> error + by_day \<times> string list" where
  "gather_loop year [] st = Inr st"
| "gather_loop year (f # fs) (bd, out) =
     (case pattern_search (name f) of
        None \<Rightarrow> gather_loop year fs (bd, out)
      | Some (day, utc) \<Rightarrow>
          if startswith day year then
            (if year = ''2015'' then
               (case adjust_2015_date day of
                  Inl (ValueError m) \<Rightarrow>
                    gather_loop year fs (bd, out @ [msg_skip_invalid @ name f @ '' ('' @ m @ '')''])
                | Inl e \<Rightarrow> Inl e
                | Inr day' \<Rightarrow> gather_loop year fs (append_day day' (utc, f) bd, out))
             else gather_loop year fs (append_day day (utc, f) bd, out))
          else gather_loop year fs (bd, out))"

definition gather_files :: "string \<Rightarrow> h5file list \<Rightarrow> error + by_day \<times> string list" where
  "gather_files year files = gather_loop year files ([], [])"

section \<open>02_aggregate_smap_he5.py\<close>

record year_container =
  latitude :: arr1
  longitude :: arr1
  time :: "int list"
  sm_rootzone :: "arr2 list"
  data :: arr2
  lat_flat :: arr1
  lon_flat :: arr1
  flattened :: bool

definition UTC_CODES :: "string list" where
  "UTC_CODES = [''013000'', ''043000'', ''073000'', ''103000'',
                ''133000'', ''163000'', ''193000'', ''223000'']"

text \<open>\<open>TIME_RE = (\d{8})T(\d{6})\<close>, used with \<open>search\<close>.\<close>

definition time_re_at :: "string \<Rightarrow> (string \<times> string) option" where
  "time_re_at s =
     (let day = take 8 s; utc = slice 9 15 s
      in if length day = 8 \<and> list_all is_digit day \<and> slice 8 9 s = ''T''
            \<and> length utc = 6 \<and> list_all is_digit utc
         then Some (day, utc) else None)"

fun time_re_search :: "string \<Rightarrow> (string \<times> string) option" where
  "time_re_search [] = time_re_at []"
| "time_re_search (c # cs) =
     (case time_re_at (c # cs) of Some g \<Rightarrow> Some g | None \<Rightarrow> time_re_search cs)"

definition msg_cannot_parse :: string where
  "msg_cannot_parse =
     [CHR 0xE6, CHR 0x97, CHR 0xA0, CHR 0xE6, CHR 0xB3, CHR 0x95, CHR 0xE8, CHR 0xA7, CHR 0xA3,
      CHR 0xE6, CHR 0x9E, CHR 0x90, CHR 0xE6, CHR 0x97, CHR 0xB6, CHR 0xE9, CHR 0x97, CHR 0xB4]
     @ '': ''"

definition msg_empty_crop :: string where
  "msg_empty_crop =
     [CHR 0xE8, CHR 0xA3, CHR 0x81, CHR 0xE5, CHR 0x89, CHR 0xAA, CHR 0xE8, CHR 0x8C, CHR 0x83,
      CHR 0xE5, CHR 0x9B, CHR 0xB4, CHR 0xE4, CHR 0xB8, CHR 0xBA, CHR 0xE7, CHR 0xA9, CHR 0xBA]"

definition word_missing :: string where
  "word_missing = [CHR 0xE7, CHR 0xBC, CHR 0xBA]"

definition parse_dt :: "string \<Rightarrow> error + string \<times> string" where
  "parse_dt nm =
     (case time_re_search nm of
        None \<Rightarrow> Inl (ValueError (msg_cannot_parse @ nm))
      | Some g \<Rightarrow> Inr g)"

text \<open>
  Opening a file and reading a dataset of it by its path. \<open>hdfeos\<close> says whether the
  file has the top-level group HDFEOS, which selects the paths.
\<close>

definition h5_open :: "h5file \<Rightarrow> error + granule" where
  "h5_open fp = (case content fp of None \<Rightarrow> Inl OSError | Some g \<Rightarrow> Inr g)"

definition h5_get :: "granule \<Rightarrow> string \<Rightarrow> error + arr2" where
  "h5_get g k = (case map_of (datasets g) k of None \<Rightarrow> Inl (KeyError k) | Some a \<Rightarrow> Inr a)"

text \<open>\<open>a[:, 0]\<close> and \<open>a[0, :]\<close> of a 2-D array.\<close>

definition column0 :: "arr2 \<Rightarrow> error + arr1" where
  "column0 a = (if list_ex (\<lambda>r. r = []) a then Inl IndexError else Inr (map hd a))"

definition row0 :: "arr2 \<Rightarrow> error + arr1" where
  "row0 a = (case a of [] \<Rightarrow> Inl IndexError | r # _ \<Rightarrow> Inr r)"

definition lat_path :: "granule \<Rightarrow> string" where
  "lat_path f = (if hdfeos f then ''HDFEOS/GRIDS/FileMainGroup/Data Fields/cell_lat''
                 else ''cell_lat'')"

definition lon_path :: "granule \<Rightarrow> string" where
  "lon_path f = (if hdfeos f then ''HDFEOS/GRIDS/FileMainGroup/Data Fields/cell_lon''
                 else ''cell_lon'')"

definition get_lat_lon :: "h5file \<Rightarrow> error + arr1 \<times> arr1" where
  "get_lat_lon sample =
     (case h5_open sample of Inl e \<Rightarrow> Inl e | Inr f \<Rightarrow>
      (case h5_get f (lat_path f) of Inl e \<Rightarrow> Inl e | Inr lat2d \<Rightarrow>
      (case h5_get f (lon_path f) of Inl e \<Rightarrow> Inl e | Inr lon2d \<Rightarrow>
      (case column0 lat2d of Inl e \<Rightarrow> Inl e | Inr lat \<Rightarrow>
      (case row0 lon2d of Inl e \<Rightarrow> Inl e | Inr lon \<Rightarrow> Inr (lat, lon))))))"

text \<open>\<open>sm[sm < -9000] = np.nan\<close>: a comparison with NaN is false, NaN stays NaN.\<close>

definition mask_sentinel :: "fval \<Rightarrow> fval" where
  "mask_sentinel v = (case v of NaN \<Rightarrow> NaN | Val x \<Rightarrow> if x < - 9000 then NaN else Val x)"

text \<open>\<open>sm[lat_idx[:, None], lon_idx]\<close>: every index is checked against the shape.\<close>

definition fancy_index :: "arr2 \<Rightarrow> nat list \<Rightarrow> nat list \<Rightarrow> error + arr2" where
  "fancy_index sm lat_idx lon_idx =
     (if list_all (\<lambda>i. i < length sm \<and> list_all (\<lambda>j. j < length (sm ! i)) lon_idx) lat_idx
      then Inr (map (\<lambda>i. map (\<lambda>j. sm ! i ! j) lon_idx) lat_idx)
      else Inl IndexError)"

definition sm_path :: "granule \<Rightarrow> string" where
  "sm_path f = (if hdfeos f then ''HDFEOS/GRIDS/Geophysical_Data/Data Fields/sm_rootzone''
                else ''Geophysical_Data/sm_rootzone'')"

definition read_sm :: "h5file \<Rightarrow> nat list \<Rightarrow> nat list \<Rightarrow> error + arr2" where
  "read_sm fp lat_idx lon_idx =
     (case h5_open fp of Inl e \<Rightarrow> Inl e | Inr f \<Rightarrow>
      (case h5_get f (sm_path f) of Inl e \<Rightarrow> Inl e | Inr sm \<Rightarrow>
       fancy_index (map (map mask_sentinel) sm) lat_idx lon_idx))"

text \<open>\<open>np.where((v >= lo) & (v <= hi))[0]\<close>.\<close>

definition in_box :: "real \<Rightarrow> real \<Rightarrow> fval \<Rightarrow> bool" where
  "in_box lo hi v = (case v of NaN \<Rightarrow> False | Val x \<Rightarrow> lo \<le> x \<and> x \<le> hi)"

definition crop_idx :: "arr1 \<Rightarrow> real \<Rightarrow> real \<Rightarrow> nat list" where
  "crop_idx v lo hi = filter (\<lambda>i. in_box lo hi (v ! i)) [0..<length v]"

text \<open>\<open>np.nanmean(sm_list, axis=0)\<close>: per cell, the mean of the readings that are not NaN.\<close>

fun valid_values :: "fval list \<Rightarrow> real list" where
  "valid_values [] = []"
| "valid_values (NaN # vs) = valid_values vs"
| "valid_values (Val x # vs) = x # valid_values vs"

definition nanmean_cell :: "fval list \<Rightarrow> fval" where
  "nanmean_cell vs =
     (let valid = valid_values vs
      in if valid = [] then NaN else Val (sum_list valid / real (length valid)))"

definition shape2 :: "arr2 \<Rightarrow> nat \<times> nat" where
  "shape2 a = (length a, case a of [] \<Rightarrow> 0 | r # _ \<Rightarrow> length r)"

definition nanmean_axis0 :: "arr2 list \<Rightarrow> arr2" where
  "nanmean_axis0 sm_list =
     (case sm_list of [] \<Rightarrow> []
      | s # _ \<Rightarrow> map (\<lambda>i. map (\<lambda>j. nanmean_cell (map (\<lambda>a. a ! i ! j) sm_list))
                              [0..<snd (shape2 s)])
                   [0..<fst (shape2 s)])"

type_synonym daily = "(string \<times> (string \<times> h5file) list) list"

definition dict_get :: "('k \<times> 'v) list \<Rightarrow> 'k \<Rightarrow> string \<Rightarrow> error + 'v" where
  "dict_get d k shown = (case map_of d k of None \<Rightarrow> Inl (KeyError shown) | Some v \<Rightarrow> Inr v)"

text \<open>
  The first loop of \<open>aggregate_one_year\<close>: \<open>daily[day][utc] = fp\<close> for the files whose
  time code is one of the eight; \<open>daily\<close> is a \<open>defaultdict(dict)\<close>.
\<close>

fun build_daily :: "h5file list \<Rightarrow> daily \<Rightarrow> error + daily" where
  "build_daily [] d = Inr d"
| "build_daily (fp # fs) d =
     (case parse_dt (name fp) of
        Inl e \<Rightarrow> Inl e
      | Inr (day, utc) \<Rightarrow>
          if utc \<in> set UTC_CODES
          then build_daily fs
                 (AList.update day
                    (AList.update utc fp (case map_of d day of None \<Rightarrow> [] | Some g \<Rightarrow> g)) d)
          else build_daily fs d)"

fun map_err :: "('a \<Rightarrow> error + 'b) \<Rightarrow> 'a list \<Rightarrow> error + 'b list" where
  "map_err f [] = Inr []"
| "map_err f (x # xs) =
     (case f x of Inl e \<Rightarrow> Inl e
      | Inr y \<Rightarrow> (case map_err f xs of Inl e \<Rightarrow> Inl e | Inr ys \<Rightarrow> Inr (y # ys)))"

definition missing_codes :: "daily \<Rightarrow> string \<Rightarrow> string list" where
  "missing_codes d day =
     filter (\<lambda>u. u \<notin> set (map fst (case map_of d day of None \<Rightarrow> [] | Some g \<Rightarrow> g))) UTC_CODES"

definition msg_missing :: "string \<Rightarrow> string \<Rightarrow> string list \<Rightarrow> string" where
  "msg_missing folder day miss =
     ''['' @ folder @ ''] '' @ day @ '' '' @ word_missing @ '' '' @ join '','' miss"

text \<open>The raster of one complete day: the eight readings, cropped, then averaged.\<close>

definition daily_raster :: "daily \<Rightarrow> string \<Rightarrow> nat list \<Rightarrow> nat list \<Rightarrow> error + arr2" where
  "daily_raster d day lat_idx lon_idx =
     (case dict_get d day day of Inl e \<Rightarrow> Inl e | Inr g \<Rightarrow>
      (case map_err (\<lambda>u. case dict_get g u u of Inl e \<Rightarrow> Inl e
                          | Inr fp \<Rightarrow> read_sm fp lat_idx lon_idx) UTC_CODES of
         Inl e \<Rightarrow> Inl e
       | Inr sm_list \<Rightarrow> Inr (nanmean_axis0 sm_list)))"

text \<open>
  The second loop, over \<open>sorted(daily)\<close>. The state is \<open>data_daily\<close>, \<open>date_list\<close> and the
  warnings issued so far.
\<close>

fun day_loop ::
  "string \<Rightarrow> bool \<Rightarrow> nat list \<Rightarrow> nat list \<Rightarrow> daily \<Rightarrow> string list
     \<Rightarrow> arr2 list \<times> int list \<times> string list \<Rightarrow> error + arr2 list \<times> int list \<times> string list" where
  "day_loop folder strict lat_idx lon_idx d [] st = Inr st"
| "day_loop folder strict lat_idx lon_idx d (day # days) (data_daily, date_list, warned) =
     (let miss = missing_codes d day
      in if miss \<noteq> [] then
           (if strict then Inl (RuntimeError (msg_missing folder day miss))
            else day_loop folder strict lat_idx lon_idx d days
                   (data_daily, date_list, warned @ [msg_missing folder day miss]))
         else (case daily_raster d day lat_idx lon_idx of
                 Inl e \<Rightarrow> Inl e
               | Inr r \<Rightarrow>
                   (case py_int day of
                      Inl e \<Rightarrow> Inl e
                    | Inr n \<Rightarrow> day_loop folder strict lat_idx lon_idx d days
                                 (data_daily @ [r], date_list @ [n], warned))))"

text \<open>\<open>reshape(T, H*W)\<close> of a C-ordered array: the elements in row-major order, cut anew.\<close>

definition ravel3 :: "arr2 list \<Rightarrow> arr1" where
  "ravel3 a = concat (map concat a)"

definition reshape2 :: "nat \<Rightarrow> nat \<Rightarrow> arr1 \<Rightarrow> arr2" where
  "reshape2 t n xs = map (\<lambda>d. take n (drop (d * n) xs)) [0..<t]"

text \<open>\<open>np.meshgrid(x, y)\<close> with the default \<open>indexing='xy'\<close>: two arrays of shape (len y, len x).\<close>

definition meshgrid :: "arr1 \<Rightarrow> arr1 \<Rightarrow> arr2 \<times> arr2" where
  "meshgrid x y = (replicate (length y) x, map (\<lambda>v. replicate (length x) v) y)"

text \<open>
  The third part of \<open>aggregate_one_year\<close>: the datasets of the file written to
  \<open>out_path\<close>, from the daily rasters and their dates. It runs only when \<open>data_daily\<close>
  is not empty. The dates have eight digits and fit the \<open>int32\<close> of the \<open>time\<close> dataset.
\<close>

definition write_container ::
  "arr1 \<Rightarrow> arr1 \<Rightarrow> nat list \<Rightarrow> nat list \<Rightarrow> arr2 list \<Rightarrow> int list \<Rightarrow> year_container" where
  "write_container lat_vec lon_vec lat_idx lon_idx data_daily date_list =
     (let data_3d = data_daily;
          T = length data_3d;
          H = fst (shape2 (hd data_3d));
          W = snd (shape2 (hd data_3d));
          data_flat = reshape2 T (H * W) (ravel3 data_3d);
          lat_c = map (\<lambda>i. lat_vec ! i) lat_idx;
          lon_c = map (\<lambda>i. lon_vec ! i) lon_idx;
          (lon_mesh, lat_mesh) = meshgrid lon_c lat_c
      in \<lparr>latitude = lat_c, longitude = lon_c, time = date_list,
          sm_rootzone = data_3d, data = data_flat,
          lat_flat = concat lat_mesh, lon_flat = concat lon_mesh,
          flattened = True\<rparr>)"

text \<open>
  \<open>aggregate_one_year\<close>. \<open>files\<close> is the list the two sorted \<open>glob\<close> calls give, \<open>folder\<close>
  the name of the year folder. The result is the warnings and the container written to
  \<open>out_path\<close>, if one was written; an exception leaves no file.
\<close>

definition aggregate_one_year ::
  "string \<Rightarrow> h5file list \<Rightarrow> real \<Rightarrow> real \<Rightarrow> real \<Rightarrow> real \<Rightarrow> bool
     \<Rightarrow> error + string list \<times> year_container option" where
  "aggregate_one_year folder files lat_min lat_max lon_min lon_max strict =
     (case files of [] \<Rightarrow> Inr ([], None) | sample # _ \<Rightarrow>
      (case get_lat_lon sample of Inl e \<Rightarrow> Inl e | Inr (lat_vec, lon_vec) \<Rightarrow>
       (let lat_idx = crop_idx lat_vec lat_min lat_max;
            lon_idx = crop_idx lon_vec lon_min lon_max
        in if lat_idx = [] \<or> lon_idx = [] then Inl (RuntimeError msg_empty_crop)
           else (case build_daily files [] of Inl e \<Rightarrow> Inl e | Inr d \<Rightarrow>
                 (case day_loop folder strict lat_idx lon_idx d (sort (map fst d)) ([], [], []) of
                    Inl e \<Rightarrow> Inl e
                  | Inr (data_daily, date_list, warned) \<Rightarrow>
                      if data_daily = [] then Inr (warned, None)
                      else Inr (warned,
                             Some (write_container lat_vec lon_vec lat_idx lon_idx
                                     data_daily date_list)))))))"

section \<open>03_merge_yearly_daily.py\<close>

record merged_container =
  m_data :: arr2
  m_time :: "int list"
  m_lat_flat :: arr1
  m_lon_flat :: arr1
  m_flattened :: bool

text \<open>
  \<open>np.allclose(a, b)\<close> with the defaults \<open>rtol = 1e-05\<close>, \<open>atol = 1e-08\<close> and
  \<open>equal_nan = False\<close>; arrays of different lengths are broadcast when one has length 1.
\<close>

definition rtol :: real where
  "rtol = 1 / 100000"

definition atol :: real where
  "atol = 1 / 100000000"

definition isclose :: "fval \<Rightarrow> fval \<Rightarrow> bool" where
  "isclose a b =
     (case a of NaN \<Rightarrow> False
      | Val x \<Rightarrow> (case b of NaN \<Rightarrow> False | Val y \<Rightarrow> \<bar>x - y\<bar> \<le> atol + rtol * \<bar>y\<bar>))"

definition allclose :: "arr1 \<Rightarrow> arr1 \<Rightarrow> error + bool" where
  "allclose a b =
     (if length a = length b then Inr (list_all2 isclose a b)
      else if length a = 1 then Inr (list_all (\<lambda>y. isclose (hd a) y) b)
      else if length b = 1 then Inr (list_all (\<lambda>x. isclose x (hd b)) a)
      else Inl (ValueError ''operands could not be broadcast together''))"

text \<open>\<open>a[mask]\<close> with a boolean mask along the first axis.\<close>

definition select_mask :: "bool list \<Rightarrow> 'a list \<Rightarrow> 'a list" where
  "select_mask bs xs = map snd (filter fst (zip bs xs))"

definition wrap_int32 :: "int \<Rightarrow> int" where
  "wrap_int32 x = (x + 2147483648) mod 4294967296 - 2147483648"

text \<open>
  The loop over \<open>years\<close>: one entry per year, the container read from \<open>{y}_daily.h5\<close>, or
  \<open>None\<close> where that file cannot be opened. The state is \<open>data_all\<close>, \<open>time_all\<close> and the
  pair \<open>lat_flat\<close>, \<open>lon_flat\<close> once the first file has been read. \<open>lo\<close> and \<open>hi\<close> are
  \<open>start_day\<close> and \<open>end_day\<close> in the form \<open>%Y%m%d\<close>, read as integers.
\<close>

fun merge_loop ::
  "year_container option list \<Rightarrow> int \<Rightarrow> int \<Rightarrow> arr2 list \<times> int list list \<times> (arr1 \<times> arr1) option
     \<Rightarrow> error + arr2 list \<times> int list list \<times> (arr1 \<times> arr1) option" where
  "merge_loop [] lo hi st = Inr st"
| "merge_loop (fo # fs) lo hi (data_all, time_all, coords) =
     (case fo of None \<Rightarrow> Inl OSError | Some f \<Rightarrow>
      (let valid_mask = map (\<lambda>t. lo \<le> t \<and> t \<le> hi) (time f)
       in if length (data f) \<noteq> length valid_mask then Inl IndexError
          else (let data_all' = data_all @ [select_mask valid_mask (data f)];
                    time_all' = time_all @ [select_mask valid_mask (time f)]
                in case coords of
                     None \<Rightarrow> merge_loop fs lo hi (data_all', time_all', Some (lat_flat f, lon_flat f))
                   | Some (lat0, lon0) \<Rightarrow>
                       (case allclose lat0 (lat_flat f) of
                          Inl e \<Rightarrow> Inl e
                        | Inr ok_lat \<Rightarrow>
                            if \<not> ok_lat then Inl (AssertionError ''lat mismatch!'')
                            else (case allclose lon0 (lon_flat f) of
                                    Inl e \<Rightarrow> Inl e
                                  | Inr ok_lon \<Rightarrow>
                                      if \<not> ok_lon then Inl (AssertionError ''lon mismatch!'')
                                      else merge_loop fs lo hi (data_all', time_all', coords))))))"

text \<open>
  \<open>np.concatenate(data_all, axis=0)\<close> needs one array at least, and arrays of one width.
  The width of an array is read off its rows, so an array without rows agrees with any.
\<close>

definition concatenate_rows :: "arr2 list \<Rightarrow> error + arr2" where
  "concatenate_rows arrays =
     (if arrays = [] then Inl (ValueError ''need at least one array to concatenate'')
      else if list_ex (\<lambda>r. length r \<noteq> length (hd (concat arrays))) (concat arrays)
           then Inl (ValueError ''all the input array dimensions except for the concatenation axis must match exactly'')
           else Inr (concat arrays))"

definition concatenate_1d :: "int list list \<Rightarrow> error + int list" where
  "concatenate_1d arrays =
     (if arrays = [] then Inl (ValueError ''need at least one array to concatenate'')
      else Inr (concat arrays))"

text \<open>
  The script: the result is the merged container written to \<open>out_h5\<close>, or the exception.
  With no file read, \<open>np.concatenate\<close> has already failed, so the branch for
  \<open>lat_flat is None\<close> at the end is never taken.
\<close>

definition merge_years :: "year_container option list \<Rightarrow> int \<Rightarrow> int \<Rightarrow> error + merged_container" where
  "merge_years files lo hi =
     (case merge_loop files lo hi ([], [], None) of
        Inl e \<Rightarrow> Inl e
      | Inr (data_all, time_all, coords) \<Rightarrow>
          (case concatenate_rows data_all of Inl e \<Rightarrow> Inl e | Inr data_cat \<Rightarrow>
           (case concatenate_1d time_all of Inl e \<Rightarrow> Inl e | Inr time_cat \<Rightarrow>
            (case coords of
               None \<Rightarrow> Inl (ValueError ''lat_flat is None'')
             | Some (lat0, lon0) \<Rightarrow>
                 Inr \<lparr>m_data = data_cat, m_time = map wrap_int32 time_cat,
                      m_lat_flat = lat0, m_lon_flat = lon0, m_flattened = True\<rparr>))))"

definition start_day :: int where
  "start_day = 20150331"

definition end_day :: int where
  "end_day = 20241231"

section \<open>The daily mean as the specification words it\<close>

text \<open>
  The mean of one cell over the readings of a day, in the words of the specification: the
  readings below the sentinel threshold \<open>-9000\<close> are left out, the rest is averaged, and
  a cell with no reading left is not a number. A reading that is NaN in the file counts
  as invalid as well.
\<close>

definition spec_cell_mean :: "fval list \<Rightarrow> fval" where
  "spec_cell_mean readings =
     (let kept = concat (map (\<lambda>v. case v of NaN \<Rightarrow> [] | Val x \<Rightarrow> if x < - 9000 then [] else [x]) readings)
      in if kept = [] then NaN else Val (sum_list kept / real (length kept)))"

section \<open>Example inputs\<close>

definition f0330 :: h5file where
  "f0330 = \<lparr>name = ''SMAP_L4_SM_gph_20150330T013000_Vv4030_001.h5'', content = None\<rparr>"

definition f0401 :: h5file where
  "f0401 = \<lparr>name = ''SMAP_L4_SM_gph_20150401T013000_Vv4030_001.h5'', content = None\<rparr>"

text \<open>
  A grid of three rows (latitudes 60, 40, 20) and three columns (longitudes 100, 120, 140):
  the box 18..54, 73..136 keeps rows 1, 2 and columns 0, 1.
\<close>

definition ex_granule :: "arr2 \<Rightarrow> granule" where
  "ex_granule sm =
     \<lparr>hdfeos = False,
      datasets = [(''cell_lat'', [[Val 60, Val 60, Val 60], [Val 40, Val 40, Val 40], [Val 20, Val 20, Val 20]]),
                  (''cell_lon'', [[Val 100, Val 120, Val 140], [Val 100, Val 120, Val 140], [Val 100, Val 120, Val 140]]),
                  (''Geophysical_Data/sm_rootzone'', sm)]\<rparr>"

definition ex_file :: "string \<Rightarrow> string \<Rightarrow> arr2 \<Rightarrow> h5file" where
  "ex_file day utc sm =
     \<lparr>name = ''SMAP_L4_SM_gph_'' @ day @ ''T'' @ utc @ ''_Vv4030_001.h5'',
      content = Some (ex_granule sm)\<rparr>"

definition ex_field :: "real \<Rightarrow> arr2" where
  "ex_field x = [[Val 9, Val 9, Val 9], [Val x, Val (x + 1), Val 9], [Val (- 9999), Val (x + 3), Val 9]]"

definition ex_notes :: h5file where
  "ex_notes = \<lparr>name = ''notes.h5'', content = None\<rparr>"

definition ex_field_s :: "real \<Rightarrow> arr2" where
  "ex_field_s x = [[Val 9, Val 9, Val 9], [Val (- 9999), Val (x + 1), Val 9], [Val (- 9999), Val (x + 3), Val 9]]"

definition ex_fields_of :: "real \<Rightarrow> arr2 list" where
  "ex_fields_of s = [ex_field (s + 1), ex_field (s + 2), ex_field (s + 3), ex_field (s + 4),
                     ex_field (s + 5), ex_field (s + 6), ex_field (s + 7), ex_field_s (s + 8)]"

definition ex_fields :: "arr2 list" where
  "ex_fields = ex_fields_of 0"

definition ex_day_of :: "string \<Rightarrow> real \<Rightarrow> h5file list" where
  "ex_day_of day s = map (\<lambda>(utc, sm). ex_file day utc sm) (zip UTC_CODES (ex_fields_of s))"

definition ex_day :: "string \<Rightarrow> h5file list" where
  "ex_day day = ex_day_of day 0"

text \<open>A year of three days, the second with three files only.\<close>

definition ex_year :: "h5file list" where
  "ex_year = ex_day ''20190101'' @ take 3 (ex_day ''20190102'') @ ex_day_of ''20190103'' 10"

definition ex_group_of :: "string \<Rightarrow> real \<Rightarrow> (string \<times> h5file) list" where
  "ex_group_of day s = map (\<lambda>(utc, sm). (utc, ex_file day utc sm)) (zip UTC_CODES (ex_fields_of s))"

definition ex_group :: "string \<Rightarrow> (string \<times> h5file) list" where
  "ex_group day = ex_group_of day 0"

definition ex_daily :: daily where
  "ex_daily = [(''20190101'', ex_group ''20190101''),
               (''20190102'', take 3 (ex_group ''20190102'')),
               (''20190103'', ex_group_of ''20190103'' 10)]"

definition ex_raster1 :: arr2 where
  "ex_raster1 = [[Val 4, Val (11 / 2)], [NaN, Val (15 / 2)]]"

definition ex_raster3 :: arr2 where
  "ex_raster3 = [[Val 14, Val (31 / 2)], [NaN, Val (35 / 2)]]"

definition ex_container :: year_container where
  "ex_container =
     \<lparr>latitude = [Val 40, Val 20], longitude = [Val 100, Val 120],
      time = [20190101, 20190103],
      sm_rootzone = [ex_raster1, ex_raster3],
      data = [[Val 4, Val (11 / 2), NaN, Val (15 / 2)], [Val 14, Val (31 / 2), NaN, Val (35 / 2)]],
      lat_flat = [Val 40, Val 40, Val 20, Val 20],
      lon_flat = [Val 100, Val 120, Val 100, Val 120],
      flattened = True\<rparr>"

definition ex_warning :: string where
  "ex_warning = ''[2019] 20190102 '' @ word_missing @ '' 103000,133000,163000,193000,223000''"

text \<open>Year containers for the merge: a grid of two points, one or two days each.\<close>

definition ex_yc :: "int list \<Rightarrow> arr2 \<Rightarrow> arr1 \<Rightarrow> year_container" where
  "ex_yc ts rows lats =
     \<lparr>latitude = [Val 10], longitude = [Val 100, Val 110], time = ts,
      sm_rootzone = map (\<lambda>r. [r]) rows, data = rows,
      lat_flat = lats, lon_flat = [Val 100, Val 110], flattened = True\<rparr>"

definition ex_c15 :: year_container where
  "ex_c15 = ex_yc [20150330, 20150331] [[Val 1, Val 2], [Val 3, Val 4]] [Val 10, Val 10]"

definition ex_c16 :: year_container where
  "ex_c16 = ex_yc [20160101] [[Val 5, Val 6]] [Val 10, Val 10]"

definition ex_c16_near :: year_container where
  "ex_c16_near = ex_yc [20160101] [[Val 5, Val 6]] [Val (10 + 1 / 131072), Val 10]"

definition ex_c16_far :: year_container where
  "ex_c16_far = ex_yc [20160101] [[Val 5, Val 6]] [Val 11, Val 10]"

section \<open>Properties of 01_check_and_move_smap.py\<close>


lemma digit_not_special:
  "is_digit c \<Longrightarrow> \<not> is_space c \<and> c \<noteq> CHR ''-'' \<and> c \<noteq> CHR ''+'' \<and> c \<noteq> CHR ''_''"
  by (auto simp: is_digit_def is_space_def)

lemma digit_val_lt: "is_digit c \<Longrightarrow> digit_val c < 10"
  by (auto simp: is_digit_def digit_val_def)

lemma digit_char_val: "is_digit c \<Longrightarrow> digit_char (digit_val c) = c"
  by (auto simp: is_digit_def digit_val_def digit_char_def)

lemma py_int_two_digits:
  assumes "is_digit a" "is_digit b"
  shows "py_int [a, b] = Inr (int (digit_val a * 10 + digit_val b))"
  using digit_not_special[OF assms(1)] digit_not_special[OF assms(2)] assms
  by (simp add: py_int_def strip_def)

lemma dec_nat_two:
  assumes "x < 10" "y < 10"
  shows "zpad 2 (dec_nat (x * 10 + y)) = [digit_char x, digit_char y]"
proof (cases "x = 0")
  case True
  then show ?thesis using assms by (simp add: dec_nat.simps[of y] zpad_def digit_char_def)
next
  case False
  then have "\<not> x * 10 + y < 10" by simp
  moreover have "(x * 10 + y) div 10 = x" "(x * 10 + y) mod 10 = y" using assms by simp_all
  ultimately show ?thesis using assms
    by (simp add: dec_nat.simps[of "x * 10 + y"] dec_nat.simps[of x] zpad_def)
qed

lemma fmt02d_two_digits:
  assumes "is_digit a" "is_digit b"
  shows "fmt02d (int (digit_val a * 10 + digit_val b)) = [a, b]"
  using dec_nat_two[OF digit_val_lt[OF assms(1)] digit_val_lt[OF assms(2)]] assms
  by (simp add: fmt02d_def digit_char_val del: of_nat_add of_nat_mult)


lemma length8E:
  assumes "length (s::'a list) = 8"
  obtains a b c d e f g h where "s = [a, b, c, d, e, f, g, h]"
  using assms by (auto simp: length_Suc_conv eval_nat_numeral)

lemma adjust_2015_date_digits:
  assumes "length s = 8" "list_all is_digit s" "startswith s ''2015''"
  shows "adjust_2015_date s =
          (if 3 < nat_of_digits (slice 4 6 s) \<or>
              (nat_of_digits (slice 4 6 s) = 3 \<and> 31 \<le> nat_of_digits (slice 6 8 s))
           then Inr s else Inl (ValueError (msg_before_march31 @ s)))"
proof -
  obtain a b c d e f g h where s: "s = [a, b, c, d, e, f, g, h]"
    using assms(1) by (rule length8E)
  have dg: "is_digit e" "is_digit f" "is_digit g" "is_digit h"
    using assms(2) by (simp_all add: s)
  have pre: "[a, b, c, d] = ''2015''"
    using assms(3) by (simp add: s startswith_def)
  have sl: "slice 4 6 s = [e, f]" "slice 6 8 s = [g, h]"
    by (simp_all add: s slice_def)
  have m: "py_int (slice 4 6 s) = Inr (int (digit_val e * 10 + digit_val f))"
    unfolding sl by (rule py_int_two_digits[OF dg(1,2)])
  have d: "py_int (slice 6 8 s) = Inr (int (digit_val g * 10 + digit_val h))"
    unfolding sl by (rule py_int_two_digits[OF dg(3,4)])
  have nm: "nat_of_digits (slice 4 6 s) = digit_val e * 10 + digit_val f"
    and nd: "nat_of_digits (slice 6 8 s) = digit_val g * 10 + digit_val h"
    unfolding sl by simp_all
  have rebuilt: "''2015'' @ fmt02d (int (digit_val e * 10 + digit_val f))
                @ fmt02d (int (digit_val g * 10 + digit_val h)) = s"
    unfolding fmt02d_two_digits[OF dg(1,2)] fmt02d_two_digits[OF dg(3,4)]
    using pre by (simp add: s)
  show ?thesis
    unfolding adjust_2015_date_def m d nm nd Let_def sum.case
    using assms(3) rebuilt by (auto simp del: of_nat_add of_nat_mult simp add: not_less)
qed

text \<open>
  C10. For an 8-digit date string of 2015, \<open>adjust_2015_date\<close> returns the string itself
  when its month and day are March 31 or later, and raises \<open>ValueError\<close> when they are
  earlier; \<open>gather_files\<close> then keeps the file under the unchanged day, or skips it and
  prints the reason.
\<close>

theorem adjust_2015_date_identity:
  assumes "length s = 8" and "list_all is_digit s" and "startswith s ''2015''"
  shows "adjust_2015_date s =
           (if 3 < nat_of_digits (slice 4 6 s) \<or>
               (nat_of_digits (slice 4 6 s) = 3 \<and> 31 \<le> nat_of_digits (slice 6 8 s))
            then Inr s else Inl (ValueError (msg_before_march31 @ s)))
         \<and> (pattern_search (name f) = Some (s, utc) \<longrightarrow>
              gather_loop ''2015'' (f # fs) (bd, out) =
                (if 3 < nat_of_digits (slice 4 6 s) \<or>
                    (nat_of_digits (slice 4 6 s) = 3 \<and> 31 \<le> nat_of_digits (slice 6 8 s))
                 then gather_loop ''2015'' fs (append_day s (utc, f) bd, out)
                 else gather_loop ''2015'' fs
                        (bd, out @ [msg_skip_invalid @ name f @ '' ('' @ msg_before_march31 @ s @ '')''])))"
  using assms(3) by (simp add: adjust_2015_date_digits[OF assms])

theorem adjust_2015_date_identity_witness:
  "adjust_2015_date ''20150401'' = Inr ''20150401''
   \<and> adjust_2015_date ''20150330'' = Inl (ValueError (msg_before_march31 @ ''20150330''))
   \<and> gather_loop ''2015'' [f0330, f0401] ([], []) =
       Inr ([(''20150401'', [(''013000'', f0401)])],
            [msg_skip_invalid @ name f0330 @ '' ('' @ msg_before_march31 @ ''20150330'' @ '')''])"
proof -
  have a: "length ''20150401'' = 8 \<and> list_all is_digit ''20150401'' \<and> startswith ''20150401'' ''2015''"
    by (simp add: is_digit_def startswith_def)
  have b: "length ''20150330'' = 8 \<and> list_all is_digit ''20150330'' \<and> startswith ''20150330'' ''2015''"
    by (simp add: is_digit_def startswith_def)
  have pa: "pattern_search (name f0401) = Some (''20150401'', ''013000'')" by code_simp
  have pb: "pattern_search (name f0330) = Some (''20150330'', ''013000'')" by code_simp
  have na: "nat_of_digits (slice 4 6 ''20150401'') = 4" by code_simp
  have nb: "nat_of_digits (slice 4 6 ''20150330'') = 3" "nat_of_digits (slice 6 8 ''20150330'') = 30"
    by code_simp+
  note ta = adjust_2015_date_identity[of "''20150401''" f0401 "''013000''" "[]" "[]"
      "[msg_skip_invalid @ name f0330 @ '' ('' @ msg_before_march31 @ ''20150330'' @ '')'']",
      unfolded na, simplified a pa, simplified]
  note tb = adjust_2015_date_identity[of "''20150330''" f0330 "''013000''" "[f0401]" "[]" "[]",
      unfolded nb, simplified b pb, simplified]
  show ?thesis
    using ta tb by (simp add: append_day_def)
qed
section \<open>Properties of the file-name handling\<close>


lemma gather_loop_skip:
  "gather_loop year files st = gather_loop year (filter (\<lambda>f. pattern_search (name f) \<noteq> None) files) st"
proof (induction files arbitrary: st)
  case Nil
  show ?case by simp
next
  case (Cons f fs)
  obtain bd out where st: "st = (bd, out)" by (cases st)
  show ?case
  proof (cases "pattern_search (name f)")
    case None
    then show ?thesis using Cons.IH[of "(bd, out)"] by (simp add: st)
  next
    case (Some g)
    obtain day utc where g: "g = (day, utc)" by (cases g)
    show ?thesis
      using Some Cons.IH
      by (auto simp: st g split: sum.splits error.splits)
  qed
qed

lemma build_daily_unparsed:
  assumes "\<exists>f\<in>set files. time_re_search (name f) = None"
  shows "\<exists>g\<in>set files. time_re_search (name g) = None
           \<and> build_daily files d = Inl (ValueError (msg_cannot_parse @ name g))"
  using assms
proof (induction files arbitrary: d)
  case Nil
  then show ?case by simp
next
  case (Cons f fs)
  show ?case
  proof (cases "time_re_search (name f)")
    case None
    then show ?thesis by (auto simp: parse_dt_def)
  next
    case (Some g)
    then have ex: "\<exists>f\<in>set fs. time_re_search (name f) = None" using Cons.prems by auto
    obtain day utc where g: "g = (day, utc)" by (cases g)
    from Cons.IH[OF ex] show ?thesis
      using Some by (auto simp: parse_dt_def g)
  qed
qed

lemma aggregate_unparsed_error:
  assumes "f \<in> set files" and "time_re_search (name f) = None"
  shows "\<exists>e. aggregate_one_year folder files lat_min lat_max lon_min lon_max strict = Inl e"
proof -
  obtain sample rest where fs: "files = sample # rest"
    using assms(1) by (cases files) auto
  obtain g :: h5file where "build_daily files [] = Inl (ValueError (msg_cannot_parse @ name g))"
    using build_daily_unparsed[of files "[]"] assms by blast
  then show ?thesis
    by (auto simp: aggregate_one_year_def fs Let_def split: sum.splits prod.splits)
qed

lemma aggregate_unparsed_value_error:
  assumes "f \<in> set files" and "time_re_search (name f) = None"
    and "get_lat_lon (hd files) = Inr (lat_vec, lon_vec)"
    and "crop_idx lat_vec lat_min lat_max \<noteq> []" and "crop_idx lon_vec lon_min lon_max \<noteq> []"
  shows "\<exists>g. g \<in> set files \<and> time_re_search (name g) = None
           \<and> aggregate_one_year folder files lat_min lat_max lon_min lon_max strict
               = Inl (ValueError (msg_cannot_parse @ name g))"
proof -
  obtain sample rest where fs: "files = sample # rest"
    using assms(1) by (cases files) auto
  obtain g :: h5file where g: "g \<in> set files" "time_re_search (name g) = None"
      "build_daily files [] = Inl (ValueError (msg_cannot_parse @ name g))"
    using build_daily_unparsed[of files "[]"] assms(1,2) by blast
  have "aggregate_one_year folder files lat_min lat_max lon_min lon_max strict
          = Inl (ValueError (msg_cannot_parse @ name g))"
    using assms(3-5) g(3) by (simp add: aggregate_one_year_def fs Let_def)
  then show ?thesis using g(1,2) by blast
qed

text \<open>
  C8, as the code has it. \<open>gather_files\<close> passes over a file whose name does not match
  \<open>PATTERN\<close>: the result is that of the matching files alone, nothing is printed and
  nothing is raised for it. \<open>aggregate_one_year\<close> does not skip: a file of the year folder
  whose name holds no date and time makes \<open>parse_dt\<close> raise, no container is written, and
  once the reference grid and the crop window are found the exception is the
  \<open>ValueError\<close> of \<open>parse_dt\<close> for such a file.
\<close>

theorem unmatched_name_handling:
  "gather_files year files
     = gather_files year (filter (\<lambda>f. pattern_search (name f) \<noteq> None) files)
   \<and> (f \<in> set files \<and> time_re_search (name f) = None
        \<longrightarrow> (\<exists>e. aggregate_one_year folder files lat_min lat_max lon_min lon_max strict = Inl e))
   \<and> (f \<in> set files \<and> time_re_search (name f) = None
        \<and> get_lat_lon (hd files) = Inr (lat_vec, lon_vec)
        \<and> crop_idx lat_vec lat_min lat_max \<noteq> [] \<and> crop_idx lon_vec lon_min lon_max \<noteq> []
        \<longrightarrow> (\<exists>g. g \<in> set files \<and> time_re_search (name g) = None
                  \<and> aggregate_one_year folder files lat_min lat_max lon_min lon_max strict
                      = Inl (ValueError (msg_cannot_parse @ name g))))"
  using gather_loop_skip[of year files "([], [])"]
    aggregate_unparsed_error[of f files folder lat_min lat_max lon_min lon_max strict]
    aggregate_unparsed_value_error[of f files lat_vec lon_vec lat_min lat_max lon_min lon_max folder strict]
  by (simp add: gather_files_def)

theorem unmatched_name_handling_witness:
  "gather_files ''2019'' [ex_notes, ex_file ''20190101'' ''043000'' (ex_field 2)]
     = gather_files ''2019'' [ex_file ''20190101'' ''043000'' (ex_field 2)]
   \<and> aggregate_one_year ''2019'' [ex_file ''20190101'' ''043000'' (ex_field 2), ex_notes]
        18 54 73 136 False = Inl (ValueError (msg_cannot_parse @ ''notes.h5''))"
proof -
  let ?a = "ex_file ''20190101'' ''043000'' (ex_field 2)"
  have n: "time_re_search (name ex_notes) = None" by code_simp
  have pn: "pattern_search (name ex_notes) = None" by code_simp
  have a: "time_re_search (name ?a) \<noteq> None" by code_simp
  have pa: "pattern_search (name ?a) \<noteq> None" by code_simp
  have g: "get_lat_lon (hd [?a, ex_notes]) = Inr ([Val 60, Val 40, Val 20], [Val 100, Val 120, Val 140])"
    by code_simp
  have c: "crop_idx [Val 60, Val 40, Val 20] 18 54 \<noteq> []" "crop_idx [Val 100, Val 120, Val 140] 73 136 \<noteq> []"
    by code_simp+
  have nm: "name ex_notes = ''notes.h5''" by (simp add: ex_notes_def)
  have one: "gather_files ''2019'' [ex_notes, ?a] = gather_files ''2019'' [?a]"
    using unmatched_name_handling[of "''2019''" "[ex_notes, ?a]"] pn pa by simp
  have "\<exists>g. g \<in> set [?a, ex_notes] \<and> time_re_search (name g) = None
           \<and> aggregate_one_year ''2019'' [?a, ex_notes] 18 54 73 136 False
               = Inl (ValueError (msg_cannot_parse @ name g))"
    using unmatched_name_handling[of "''2019''" "[?a, ex_notes]" ex_notes
        "''2019''" 18 54 73 136 False "[Val 60, Val 40, Val 20]" "[Val 100, Val 120, Val 140]"]
      n g c by simp
  then have two: "aggregate_one_year ''2019'' [?a, ex_notes] 18 54 73 136 False
               = Inl (ValueError (msg_cannot_parse @ ''notes.h5''))"
    using a nm by auto
  show ?thesis using one two by simp
qed

text \<open>
  C8 as the spec words it fails for the aggregator: with a file named notes.h5 beside a
  granule, the year's aggregation raises instead of skipping the file.
\<close>

theorem unmatched_name_aggregate_counterexample:
  "time_re_search (name ex_notes) = None
   \<and> aggregate_one_year ''2019'' [ex_file ''20190101'' ''013000'' (ex_field 1), ex_notes]
        18 54 73 136 True = Inl (ValueError (msg_cannot_parse @ ''notes.h5''))"
  by code_simp

section \<open>Properties of the spatial crop\<close>


lemma crop_idx_mem:
  "i \<in> set (crop_idx v lo hi) \<longleftrightarrow> i < length v \<and> (\<exists>x. v ! i = Val x \<and> lo \<le> x \<and> x \<le> hi)"
  by (auto simp: crop_idx_def in_box_def split: fval.splits)

lemma crop_idx_ascending: "sorted_wrt (<) (crop_idx v lo hi)"
  unfolding crop_idx_def by (rule sorted_wrt_filter) simp

text \<open>
  C7. The crop indices are exactly the positions whose coordinate lies in the closed
  interval from the minimum to the maximum, in ascending order; when the latitude or the
  longitude index set is empty, \<open>aggregate_one_year\<close> raises \<open>RuntimeError\<close> and the
  year is not aggregated.
\<close>

theorem spatial_cropper:
  "(i \<in> set (crop_idx v lo hi) \<longleftrightarrow> i < length v \<and> (\<exists>x. v ! i = Val x \<and> lo \<le> x \<and> x \<le> hi))
   \<and> sorted_wrt (<) (crop_idx v lo hi)
   \<and> (get_lat_lon sample = Inr (lat_vec, lon_vec)
        \<and> (crop_idx lat_vec lat_min lat_max = [] \<or> crop_idx lon_vec lon_min lon_max = [])
      \<longrightarrow> aggregate_one_year folder (sample # rest) lat_min lat_max lon_min lon_max strict
            = Inl (RuntimeError msg_empty_crop))"
  by (auto simp: crop_idx_mem crop_idx_ascending aggregate_one_year_def)

theorem spatial_cropper_witness:
  "crop_idx [Val 60, Val 40, Val 20] 18 54 = [1, 2]
   \<and> get_lat_lon (ex_file ''20190101'' ''013000'' (ex_field 1))
       = Inr ([Val 60, Val 40, Val 20], [Val 100, Val 120, Val 140])
   \<and> crop_idx [Val 60, Val 40, Val 20] 70 80 = []
   \<and> aggregate_one_year ''2019'' [ex_file ''20190101'' ''013000'' (ex_field 1)] 70 80 73 136 True
       = Inl (RuntimeError msg_empty_crop)"
proof -
  have g: "get_lat_lon (ex_file ''20190101'' ''013000'' (ex_field 1))
       = Inr ([Val 60, Val 40, Val 20], [Val 100, Val 120, Val 140])"
    by code_simp
  have e: "crop_idx [Val 60, Val 40, Val 20] 70 80 = []" by code_simp
  have k: "crop_idx [Val 60, Val 40, Val 20] 18 54 = [1, 2]" by code_simp
  from spatial_cropper[of 0 "[]" 0 0 "ex_file ''20190101'' ''013000'' (ex_field 1)"
      "[Val 60, Val 40, Val 20]" "[Val 100, Val 120, Val 140]" 70 80 73 136 "''2019''" "[]" True]
  have "aggregate_one_year ''2019'' [ex_file ''20190101'' ''013000'' (ex_field 1)] 70 80 73 136 True
       = Inl (RuntimeError msg_empty_crop)"
    using g e by blast
  then show ?thesis using g e k by simp
qed
section \<open>Properties of the daily mean\<close>


lemma valid_values_mask:
  "valid_values (map mask_sentinel vs)
     = concat (map (\<lambda>v. case v of NaN \<Rightarrow> [] | Val x \<Rightarrow> if x < - 9000 then [] else [x]) vs)"
proof (induction vs)
  case Nil
  show ?case by simp
next
  case (Cons v vs)
  then show ?case by (cases v) (simp_all add: mask_sentinel_def)
qed

lemma nanmean_cell_mask: "nanmean_cell (map mask_sentinel vs) = spec_cell_mean vs"
  by (simp add: nanmean_cell_def spec_cell_mean_def valid_values_mask)

lemma map_err_nth:
  assumes "length ys = length xs" and "\<forall>k<length xs. f (xs ! k) = Inr (ys ! k)"
  shows "map_err f xs = Inr ys"
  using assms
proof (induction xs arbitrary: ys)
  case Nil
  then show ?case by simp
next
  case (Cons x xs)
  then obtain y ys' where ys: "ys = y # ys'" by (cases ys) auto
  have hd: "f x = Inr y" using Cons.prems(2) ys by auto
  have "\<forall>k<length xs. f (xs ! k) = Inr (ys' ! k)"
    using Cons.prems(2) ys by auto
  then have "map_err f xs = Inr ys'" using Cons.IH[of ys'] Cons.prems(1) ys by simp
  then show ?case using hd ys by simp
qed

lemma read_sm_ok:
  assumes "content fp = Some gr" and "h5_get gr (sm_path gr) = Inr sm"
    and "\<forall>i\<in>set li. i < length sm \<and> (\<forall>j\<in>set lo. j < length (sm ! i))"
  shows "read_sm fp li lo = Inr (map (\<lambda>i. map (\<lambda>j. mask_sentinel (sm ! i ! j)) lo) li)"
proof -
  have "list_all (\<lambda>i. i < length (map (map mask_sentinel) sm)
          \<and> list_all (\<lambda>j. j < length (map (map mask_sentinel) sm ! i)) lo) li"
    using assms(3) by (auto simp: list_all_iff)
  moreover have "map (\<lambda>i. map (\<lambda>j. map (map mask_sentinel) sm ! i ! j) lo) li
      = map (\<lambda>i. map (\<lambda>j. mask_sentinel (sm ! i ! j)) lo) li"
    using assms(3) by auto
  ultimately show ?thesis
    using assms(1,2) by (simp add: read_sm_def h5_open_def fancy_index_def)
qed

lemma map_nth_index: "map (\<lambda>k. f (xs ! k)) [0..<length xs] = map f xs"
  by (rule nth_equalityI) simp_all

lemma nanmean_axis0_crops:
  assumes "sms \<noteq> []"
  shows "nanmean_axis0 (map (\<lambda>sm. map (\<lambda>i. map (\<lambda>j. mask_sentinel (sm ! i ! j)) lo) li) sms)
           = map (\<lambda>i. map (\<lambda>j. nanmean_cell (map (\<lambda>sm. mask_sentinel (sm ! i ! j)) sms)) lo) li"
proof -
  obtain s0 rest where sms: "sms = s0 # rest" using assms by (cases sms) auto
  let ?crop = "\<lambda>sm. map (\<lambda>i. map (\<lambda>j. mask_sentinel (sm ! i ! j)) lo) li"
  have sh: "fst (shape2 (?crop s0)) = length li"
    "li \<noteq> [] \<Longrightarrow> snd (shape2 (?crop s0)) = length lo"
    by (cases li; simp add: shape2_def)+
  show ?thesis
  proof (cases "li = []")
    case True
    then show ?thesis by (simp add: nanmean_axis0_def sms shape2_def)
  next
    case False
    have cell: "map (\<lambda>a. a ! i ! j) (map ?crop sms) = map (\<lambda>sm. mask_sentinel (sm ! (li ! i) ! (lo ! j))) sms"
      if "i < length li" "j < length lo" for i j
      using that by simp
    have "nanmean_axis0 (map ?crop sms)
        = map (\<lambda>i. map (\<lambda>j. nanmean_cell (map (\<lambda>a. a ! i ! j) (map ?crop sms))) [0..<length lo]) [0..<length li]"
      using sh False by (simp add: nanmean_axis0_def sms)
    also have "\<dots> = map (\<lambda>i. map (\<lambda>j. nanmean_cell (map (\<lambda>sm. mask_sentinel (sm ! (li ! i) ! (lo ! j))) sms)) [0..<length lo]) [0..<length li]"
      using cell by (simp cong: map_cong)
    also have "\<dots> = map (\<lambda>i. map (\<lambda>j. nanmean_cell (map (\<lambda>sm. mask_sentinel (sm ! i ! j)) sms)) lo) li"
    proof -
      have inner: "map (\<lambda>j. nanmean_cell (map (\<lambda>sm. mask_sentinel (sm ! r ! (lo ! j))) sms)) [0..<length lo]
          = map (\<lambda>j. nanmean_cell (map (\<lambda>sm. mask_sentinel (sm ! r ! j)) sms)) lo" for r
        by (rule map_nth_index[of "\<lambda>j. nanmean_cell (map (\<lambda>sm. mask_sentinel (sm ! r ! j)) sms)" lo])
      show ?thesis
        unfolding inner
        by (rule map_nth_index[of "\<lambda>i. map (\<lambda>j. nanmean_cell (map (\<lambda>sm. mask_sentinel (sm ! i ! j)) sms)) lo" li])
    qed
    finally show ?thesis .
  qed
qed


lemma utc_codes_length: "length UTC_CODES = 8"
  by (simp add: UTC_CODES_def)

lemma daily_raster_eq:
  assumes "map_of d day = Some g"
    and "map (map_of g) UTC_CODES = map Some fps"
    and "map content fps = map Some grs"
    and "map (\<lambda>gr. h5_get gr (sm_path gr)) grs = map Inr sms"
    and "\<forall>sm\<in>set sms. \<forall>i\<in>set lat_idx. i < length sm \<and> (\<forall>j\<in>set lon_idx. j < length (sm ! i))"
  shows "daily_raster d day lat_idx lon_idx
           = Inr (map (\<lambda>i. map (\<lambda>j. spec_cell_mean (map (\<lambda>sm. sm ! i ! j) sms)) lon_idx) lat_idx)"
proof -
  let ?crop = "\<lambda>sm. map (\<lambda>i. map (\<lambda>j. mask_sentinel (sm ! i ! j)) lon_idx) lat_idx"
  have len: "length fps = 8" "length grs = 8" "length sms = 8"
    using arg_cong[OF assms(2), of length] arg_cong[OF assms(3), of length]
      arg_cong[OF assms(4), of length]
    by (simp_all add: utc_codes_length)
  have step: "(case dict_get g (UTC_CODES ! k) (UTC_CODES ! k) of Inl e \<Rightarrow> Inl e
                | Inr fp \<Rightarrow> read_sm fp lat_idx lon_idx) = Inr (map ?crop sms ! k)"
    if k: "k < length UTC_CODES" for k
  proof -
    have k8: "k < 8" using k by (simp add: utc_codes_length)
    have "map (map_of g) UTC_CODES ! k = map Some fps ! k" using assms(2) by simp
    then have f: "map_of g (UTC_CODES ! k) = Some (fps ! k)" using k k8 len by simp
    have "map content fps ! k = map Some grs ! k" using assms(3) by simp
    then have c: "content (fps ! k) = Some (grs ! k)" using k8 len by simp
    have "map (\<lambda>gr. h5_get gr (sm_path gr)) grs ! k = map Inr sms ! k" using assms(4) by simp
    then have s: "h5_get (grs ! k) (sm_path (grs ! k)) = Inr (sms ! k)" using k8 len by simp
    have cov: "\<forall>i\<in>set lat_idx. i < length (sms ! k) \<and> (\<forall>j\<in>set lon_idx. j < length (sms ! k ! i))"
      using assms(5) k8 len by simp
    show ?thesis
      using read_sm_ok[OF c s cov] f k8 len by (simp add: dict_get_def)
  qed
  have "map_err (\<lambda>u. case dict_get g u u of Inl e \<Rightarrow> Inl e | Inr fp \<Rightarrow> read_sm fp lat_idx lon_idx)
          UTC_CODES = Inr (map ?crop sms)"
    by (rule map_err_nth) (use step len in \<open>simp_all add: utc_codes_length\<close>)
  moreover have "sms \<noteq> []" using len by auto
  ultimately show ?thesis
    using assms(1) nanmean_axis0_crops[of sms lon_idx lat_idx]
    by (simp add: daily_raster_def dict_get_def nanmean_cell_mask[symmetric] comp_def)
qed


lemma spec_cell_mean_all_invalid:
  assumes "\<forall>v\<in>set readings. v = NaN \<or> (\<exists>x. v = Val x \<and> x < - 9000)"
  shows "spec_cell_mean readings = NaN"
proof -
  have "concat (map (\<lambda>v. case v of NaN \<Rightarrow> [] | Val x \<Rightarrow> if x < - 9000 then [] else [x]) readings) = []"
    using assms by (induction readings) auto
  then show ?thesis by (simp add: spec_cell_mean_def)
qed

text \<open>
  C2. For a day that has a file for each of the eight time codes, each file readable,
  holding the soil-moisture field and covering the crop indices, the daily raster has as
  many rows as \<open>lat_idx\<close> and as many columns as \<open>lon_idx\<close>, and its cell (a, b) is the
  mean, as the specification words it, of the eight readings at the grid cell
  (\<open>lat_idx ! a\<close>, \<open>lon_idx ! b\<close>): readings below -9000 are left out, and a cell with no
  valid reading is NaN.
\<close>

theorem daily_raster_mean:
  assumes "map_of d day = Some g"
    and "map (map_of g) UTC_CODES = map Some fps"
    and "map content fps = map Some grs"
    and "map (\<lambda>gr. h5_get gr (sm_path gr)) grs = map Inr sms"
    and "\<forall>sm\<in>set sms. \<forall>i\<in>set lat_idx. i < length sm \<and> (\<forall>j\<in>set lon_idx. j < length (sm ! i))"
  shows "\<exists>r. daily_raster d day lat_idx lon_idx = Inr r
           \<and> length r = length lat_idx
           \<and> (\<forall>a<length lat_idx. length (r ! a) = length lon_idx
                \<and> (\<forall>b<length lon_idx.
                      r ! a ! b = spec_cell_mean (map (\<lambda>sm. sm ! (lat_idx ! a) ! (lon_idx ! b)) sms)
                      \<and> ((\<forall>sm\<in>set sms. sm ! (lat_idx ! a) ! (lon_idx ! b) = NaN
                             \<or> (\<exists>x. sm ! (lat_idx ! a) ! (lon_idx ! b) = Val x \<and> x < - 9000))
                           \<longrightarrow> r ! a ! b = NaN)))"
proof -
  let ?r = "map (\<lambda>i. map (\<lambda>j. spec_cell_mean (map (\<lambda>sm. sm ! i ! j) sms)) lon_idx) lat_idx"
  have "daily_raster d day lat_idx lon_idx = Inr ?r"
    by (rule daily_raster_eq[OF assms])
  moreover have "length ?r = length lat_idx" by simp
  moreover have "length (?r ! a) = length lon_idx
      \<and> (\<forall>b<length lon_idx.
            ?r ! a ! b = spec_cell_mean (map (\<lambda>sm. sm ! (lat_idx ! a) ! (lon_idx ! b)) sms)
            \<and> ((\<forall>sm\<in>set sms. sm ! (lat_idx ! a) ! (lon_idx ! b) = NaN
                   \<or> (\<exists>x. sm ! (lat_idx ! a) ! (lon_idx ! b) = Val x \<and> x < - 9000))
                 \<longrightarrow> ?r ! a ! b = NaN))"
    if a: "a < length lat_idx" for a
  proof (intro conjI allI impI)
    show "length (?r ! a) = length lon_idx" using a by simp
  next
    fix b assume "b < length lon_idx"
    then show "?r ! a ! b = spec_cell_mean (map (\<lambda>sm. sm ! (lat_idx ! a) ! (lon_idx ! b)) sms)"
      using a by simp
  next
    fix b assume b: "b < length lon_idx"
      and inv: "\<forall>sm\<in>set sms. sm ! (lat_idx ! a) ! (lon_idx ! b) = NaN
                  \<or> (\<exists>x. sm ! (lat_idx ! a) ! (lon_idx ! b) = Val x \<and> x < - 9000)"
    have "spec_cell_mean (map (\<lambda>sm. sm ! (lat_idx ! a) ! (lon_idx ! b)) sms) = NaN"
      by (rule spec_cell_mean_all_invalid) (use inv in simp)
    then show "?r ! a ! b = NaN" using a b by simp
  qed
  ultimately show ?thesis by blast
qed

theorem daily_raster_mean_witness:
  "\<exists>r. daily_raster ex_daily ''20190101'' [1, 2] [0, 1] = Inr r
       \<and> length r = 2 \<and> length (r ! 0) = 2
       \<and> r ! 0 ! 0 = Val 4 \<and> r ! 0 ! 1 = Val (11 / 2) \<and> r ! 1 ! 0 = NaN \<and> r ! 1 ! 1 = Val (15 / 2)"
proof -
  have h1: "map_of ex_daily ''20190101'' = Some (ex_group ''20190101'')" by code_simp
  have h2: "map (map_of (ex_group ''20190101'')) UTC_CODES = map Some (ex_day ''20190101'')"
    by code_simp
  have h3: "map content (ex_day ''20190101'') = map Some (map ex_granule ex_fields)" by code_simp
  have h4: "map (\<lambda>gr. h5_get gr (sm_path gr)) (map ex_granule ex_fields) = map Inr ex_fields"
    by code_simp
  have h5: "\<forall>sm\<in>set ex_fields. \<forall>i\<in>set [1, 2]. i < length sm \<and> (\<forall>j\<in>set [0, 1]. j < length (sm ! i))"
    by (simp add: ex_fields_def ex_fields_of_def ex_field_def ex_field_s_def)
  have c00: "spec_cell_mean (map (\<lambda>sm. sm ! 1 ! 0) ex_fields) = Val 4" by code_simp
  have c01: "spec_cell_mean (map (\<lambda>sm. sm ! 1 ! 1) ex_fields) = Val (11 / 2)" by code_simp
  have c10: "spec_cell_mean (map (\<lambda>sm. sm ! 2 ! 0) ex_fields) = NaN" by code_simp
  have c11: "spec_cell_mean (map (\<lambda>sm. sm ! 2 ! 1) ex_fields) = Val (15 / 2)" by code_simp
  from daily_raster_mean[OF h1 h2 h3 h4 h5]
  obtain r where r: "daily_raster ex_daily ''20190101'' [1, 2] [0, 1] = Inr r"
      "length r = length [1::nat, 2]"
      "\<forall>a<length [1::nat, 2]. length (r ! a) = length [0::nat, 1]
          \<and> (\<forall>b<length [0::nat, 1].
                r ! a ! b = spec_cell_mean (map (\<lambda>sm. sm ! ([1, 2] ! a) ! ([0, 1] ! b)) ex_fields)
                \<and> ((\<forall>sm\<in>set ex_fields. sm ! ([1, 2] ! a) ! ([0, 1] ! b) = NaN
                       \<or> (\<exists>x. sm ! ([1, 2] ! a) ! ([0, 1] ! b) = Val x \<and> x < - 9000))
                     \<longrightarrow> r ! a ! b = NaN))"
    by blast
  have a0: "length (r ! 0) = 2" "r ! 0 ! 0 = spec_cell_mean (map (\<lambda>sm. sm ! 1 ! 0) ex_fields)"
    "r ! 0 ! 1 = spec_cell_mean (map (\<lambda>sm. sm ! 1 ! 1) ex_fields)"
    using r(3)[rule_format, of 0] by simp_all
  have a1: "r ! 1 ! 0 = spec_cell_mean (map (\<lambda>sm. sm ! 2 ! 0) ex_fields)"
    "r ! 1 ! 1 = spec_cell_mean (map (\<lambda>sm. sm ! 2 ! 1) ex_fields)"
    using r(3)[rule_format, of 1] by simp_all
  show ?thesis
    using r(1,2) a0 a1 c00 c01 c10 c11 by simp
qed

section \<open>The loop over the days\<close>


lemma map_err_append:
  "map_err f (xs @ ys) =
     (case map_err f xs of Inl e \<Rightarrow> Inl e
      | Inr us \<Rightarrow> (case map_err f ys of Inl e \<Rightarrow> Inl e | Inr vs \<Rightarrow> Inr (us @ vs)))"
  by (induction xs) (auto split: sum.splits)

lemma map_err_length: "map_err f xs = Inr ys \<Longrightarrow> length ys = length xs"
  by (induction xs arbitrary: ys) (auto split: sum.splits)


lemma day_loop_success:
  assumes "strict \<longrightarrow> (\<forall>day\<in>set days. missing_codes d day = [])"
    and "map_err (\<lambda>day. daily_raster d day li lo) (filter (\<lambda>day. missing_codes d day = []) days) = Inr rs"
    and "map_err py_int (filter (\<lambda>day. missing_codes d day = []) days) = Inr ns"
  shows "day_loop folder strict li lo d days (dd, dl, ws)
           = Inr (dd @ rs, dl @ ns,
                  ws @ map (\<lambda>day. msg_missing folder day (missing_codes d day))
                         (filter (\<lambda>day. missing_codes d day \<noteq> []) days))"
  using assms
proof (induction days arbitrary: dd dl ws rs ns)
  case Nil
  then show ?case by simp
next
  case (Cons day days)
  show ?case
  proof (cases "missing_codes d day = []")
    case True
    obtain r rs' where r: "daily_raster d day li lo = Inr r"
        "map_err (\<lambda>day. daily_raster d day li lo) (filter (\<lambda>day. missing_codes d day = []) days) = Inr rs'"
        "rs = r # rs'"
      using Cons.prems(2) True by (auto split: sum.splits)
    obtain n ns' where n: "py_int day = Inr n"
        "map_err py_int (filter (\<lambda>day. missing_codes d day = []) days) = Inr ns'"
        "ns = n # ns'"
      using Cons.prems(3) True by (auto split: sum.splits)
    have "day_loop folder strict li lo d days (dd @ [r], dl @ [n], ws)
           = Inr ((dd @ [r]) @ rs', (dl @ [n]) @ ns',
                  ws @ map (\<lambda>day. msg_missing folder day (missing_codes d day))
                         (filter (\<lambda>day. missing_codes d day \<noteq> []) days))"
      using Cons.prems(1) by (intro Cons.IH[OF _ r(2) n(2)]) simp
    then show ?thesis using True r n by simp
  next
    case False
    then have ns: "\<not> strict" using Cons.prems(1) by auto
    have "day_loop folder strict li lo d days (dd, dl, ws @ [msg_missing folder day (missing_codes d day)])
           = Inr (dd @ rs, dl @ ns,
                  (ws @ [msg_missing folder day (missing_codes d day)])
                  @ map (\<lambda>day. msg_missing folder day (missing_codes d day))
                         (filter (\<lambda>day. missing_codes d day \<noteq> []) days))"
      using Cons.prems False ns by (intro Cons.IH) simp_all
    then show ?thesis using False ns by (simp add: Let_def)
  qed
qed



lemma day_loop_result:
  assumes "day_loop folder strict li lo d days (dd, dl, ws) = Inr (dd', dl', ws')"
  shows "\<exists>rs ns. dd' = dd @ rs \<and> dl' = dl @ ns
           \<and> map_err (\<lambda>day. daily_raster d day li lo) (filter (\<lambda>day. missing_codes d day = []) days) = Inr rs
           \<and> map_err py_int (filter (\<lambda>day. missing_codes d day = []) days) = Inr ns"
  using assms
proof (induction days arbitrary: dd dl ws)
  case Nil
  then show ?case by simp
next
  case (Cons x days)
  show ?case
  proof (cases "missing_codes d x = []")
    case True
    then obtain r n where rn: "daily_raster d x li lo = Inr r" "py_int x = Inr n"
        "day_loop folder strict li lo d days (dd @ [r], dl @ [n], ws) = Inr (dd', dl', ws')"
      using Cons.prems by (auto split: sum.splits)
    from Cons.IH[OF rn(3)] obtain rs ns where
      "dd' = (dd @ [r]) @ rs" "dl' = (dl @ [n]) @ ns"
      "map_err (\<lambda>day. daily_raster d day li lo) (filter (\<lambda>day. missing_codes d day = []) days) = Inr rs"
      "map_err py_int (filter (\<lambda>day. missing_codes d day = []) days) = Inr ns"
      by blast
    then show ?thesis using True rn(1,2) by simp
  next
    case False
    then have "day_loop folder strict li lo d days (dd, dl, ws @ [msg_missing folder x (missing_codes d x)])
                 = Inr (dd', dl', ws')"
      using Cons.prems by (auto simp: Let_def split: if_splits)
    from Cons.IH[OF this] show ?thesis using False by simp
  qed
qed


section \<open>Dates as digit strings\<close>


lemma digits_us_all:
  "s \<noteq> [] \<Longrightarrow> list_all is_digit s \<Longrightarrow> digits_us s"
proof (induction s rule: digits_us.induct)
  case 1
  then show ?case by simp
next
  case (2 c)
  then show ?case by simp
next
  case (3 c d r)
  then show ?case using digit_not_special[of d] by simp
qed

lemma filter_underscore_digits:
  "list_all is_digit s \<Longrightarrow> filter (\<lambda>c. c \<noteq> CHR ''_'') s = s"
  using digit_not_special by (induction s) auto

lemma strip_digits:
  assumes "list_all is_digit s"
  shows "strip s = s"
proof (cases s)
  case Nil
  then show ?thesis by (simp add: strip_def)
next
  case (Cons c cs)
  have a: "dropWhile is_space s = s"
    using assms digit_not_special[of c] by (simp add: Cons)
  have "rev s \<noteq> []" using Cons by simp
  moreover have "\<not> is_space (hd (rev s))"
    using assms Cons digit_not_special[of "last s"]
    by (metis hd_rev last_in_set list.distinct(1) list_all_iff)
  ultimately have "dropWhile is_space (rev s) = rev s"
    by (cases "rev s") auto
  then show ?thesis by (simp add: strip_def a)
qed

lemma py_int_digits:
  assumes "s \<noteq> []" and "list_all is_digit s"
  shows "py_int s = Inr (int (nat_of_digits s))"
proof -
  obtain c cs where s: "s = c # cs" using assms(1) by (cases s) auto
  have c: "c \<noteq> CHR ''-''" "c \<noteq> CHR ''+''"
    using assms(2) digit_not_special[of c] by (simp_all add: s)
  have st: "strip (c # cs) = c # cs" using strip_digits[OF assms(2)] by (simp add: s)
  have du: "digits_us (c # cs)" using digits_us_all[OF assms] by (simp add: s)
  have fu: "filter (\<lambda>c. c \<noteq> CHR ''_'') (c # cs) = c # cs"
    using filter_underscore_digits[OF assms(2)] by (simp add: s)
  show ?thesis
    unfolding s py_int_def st Let_def using c du fu by simp
qed

lemma time_re_at_digits:
  "time_re_at s = Some (day, utc) \<Longrightarrow> length day = 8 \<and> list_all is_digit day"
  by (auto simp: time_re_at_def Let_def split: if_splits)

lemma time_re_search_digits:
  "time_re_search s = Some (day, utc) \<Longrightarrow> length day = 8 \<and> list_all is_digit day"
proof (induction s)
  case Nil
  then show ?case using time_re_at_digits by simp
next
  case (Cons c cs)
  then show ?case using time_re_at_digits[of "c # cs" day utc]
    by (auto split: option.splits)
qed

lemma build_daily_keys:
  assumes "build_daily files d0 = Inr d"
    and "distinct (map fst d0)"
    and "\<forall>k\<in>set (map fst d0). length k = 8 \<and> list_all is_digit k"
  shows "distinct (map fst d) \<and> (\<forall>k\<in>set (map fst d). length k = 8 \<and> list_all is_digit k)"
  using assms
proof (induction files arbitrary: d0)
  case Nil
  then show ?case by simp
next
  case (Cons fp fs)
  obtain day utc where p: "parse_dt (name fp) = Inr (day, utc)"
    using Cons.prems(1) by (auto split: sum.splits)
  then have dg: "length day = 8 \<and> list_all is_digit day"
    using time_re_search_digits[of "name fp" day utc]
    by (auto simp: parse_dt_def split: option.splits)
  show ?case
  proof (cases "utc \<in> set UTC_CODES")
    case False
    then have "build_daily fs d0 = Inr d" using Cons.prems(1) p by simp
    then show ?thesis using Cons.IH Cons.prems(2,3) by blast
  next
    case True
    let ?d1 = "AList.update day (AList.update utc fp (case map_of d0 day of None \<Rightarrow> [] | Some g \<Rightarrow> g)) d0"
    have b: "build_daily fs ?d1 = Inr d" using Cons.prems(1) p True by simp
    have "distinct (map fst ?d1)" using Cons.prems(2) by (simp add: distinct_update)
    moreover have "\<forall>k\<in>set (map fst ?d1). length k = 8 \<and> list_all is_digit k"
    proof -
      have "fst ` set ?d1 = {day} \<union> fst ` set d0" by (rule dom_update)
      then have "set (map fst ?d1) = insert day (set (map fst d0))" by simp
      then show ?thesis using Cons.prems(3) dg by simp
    qed
    ultimately show ?thesis using Cons.IH[OF b] by blast
  qed
qed




section \<open>The datasets of the container\<close>


lemma write_container_sel:
  "time (write_container lat_vec lon_vec li lo dd dl) = dl"
  "sm_rootzone (write_container lat_vec lon_vec li lo dd dl) = dd"
  "latitude (write_container lat_vec lon_vec li lo dd dl) = map (\<lambda>i. lat_vec ! i) li"
  "longitude (write_container lat_vec lon_vec li lo dd dl) = map (\<lambda>i. lon_vec ! i) lo"
  "lat_flat (write_container lat_vec lon_vec li lo dd dl)
     = concat (map (\<lambda>v. replicate (length lo) v) (map (\<lambda>i. lat_vec ! i) li))"
  "lon_flat (write_container lat_vec lon_vec li lo dd dl)
     = concat (replicate (length li) (map (\<lambda>i. lon_vec ! i) lo))"
  "data (write_container lat_vec lon_vec li lo dd dl)
     = reshape2 (length dd) (fst (shape2 (hd dd)) * snd (shape2 (hd dd))) (ravel3 dd)"
  by (simp_all add: write_container_def Let_def meshgrid_def)

section \<open>Row-major flattening\<close>


lemma length_concat_rect:
  "\<forall>row\<in>set r. length row = w \<Longrightarrow> length (concat r) = length r * w"
  by (induction r) auto

lemma concat_block:
  assumes "\<forall>x\<in>set xss. length x = n" and "k < length xss"
  shows "take n (drop (k * n) (concat xss)) = xss ! k"
  using assms
proof (induction xss arbitrary: k)
  case Nil
  then show ?case by simp
next
  case (Cons x xss)
  show ?case
  proof (cases k)
    case 0
    then show ?thesis using Cons.prems by simp
  next
    case (Suc k')
    have "drop (k * n) (x @ concat xss) = drop (k' * n) (concat xss)"
      using Cons.prems(1) by (simp add: Suc)
    then show ?thesis using Cons.IH[of k'] Cons.prems by (simp add: Suc)
  qed
qed

lemma concat_rect_nth:
  assumes "\<forall>row\<in>set r. length row = w" and "i < length r" and "j < w"
  shows "concat r ! (i * w + j) = r ! i ! j"
proof -
  have "r ! i ! j = take w (drop (i * w) (concat r)) ! j"
    using concat_block[OF assms(1,2)] by simp
  also have "\<dots> = drop (i * w) (concat r) ! j" using assms(3) by simp
  also have "\<dots> = concat r ! (i * w + j)"
  proof -
    have "i * w + j < length (concat r)"
    proof -
      have "i * w + j < i * w + w" using assms(3) by simp
      also have "\<dots> = Suc i * w" by simp
      also have "\<dots> \<le> length r * w" using assms(2) by (intro mult_le_mono1) simp
      finally show ?thesis using length_concat_rect[OF assms(1)] by simp
    qed
    then show ?thesis by simp
  qed
  finally show ?thesis by simp
qed

lemma concat_rect_nth_flat:
  assumes "\<forall>row\<in>set r. length row = w" and "i < length r * w"
  shows "concat r ! i = r ! (i div w) ! (i mod w)"
proof -
  have w: "0 < w" using assms(2) by (cases w) auto
  have d: "i div w < length r" using assms(2) w by (simp add: less_mult_imp_div_less)
  have m: "i mod w < w" using w by simp
  have "concat r ! ((i div w) * w + i mod w) = r ! (i div w) ! (i mod w)"
    by (rule concat_rect_nth[OF assms(1) d m])
  then show ?thesis by simp
qed

lemma reshape2_concat_rows:
  assumes "\<forall>row\<in>set r. length row = w"
  shows "reshape2 (length r) w (concat r) = r"
proof -
  have "map (\<lambda>d. take w (drop (d * w) (concat r))) [0..<length r] = map (\<lambda>d. r ! d) [0..<length r]"
    using concat_block[OF assms] by simp
  then show ?thesis by (simp add: reshape2_def map_nth)
qed

lemma reshape2_ravel3:
  assumes "\<forall>r\<in>set rs. length (concat r) = n"
  shows "reshape2 (length rs) n (ravel3 rs) = map concat rs"
proof -
  have a: "\<forall>x\<in>set (map concat rs). length x = n" using assms by simp
  have "reshape2 (length (map concat rs)) n (concat (map concat rs)) = map concat rs"
    by (rule reshape2_concat_rows[OF a])
  then show ?thesis by (simp add: ravel3_def)
qed

section \<open>What a written container holds\<close>


lemma map_err_py_int:
  assumes "\<forall>x\<in>set xs. length x = 8 \<and> list_all is_digit x"
  shows "map_err py_int xs = Inr (map (\<lambda>x. int (nat_of_digits x)) xs)"
proof (rule map_err_nth)
  show "length (map (\<lambda>x. int (nat_of_digits x)) xs) = length xs" by simp
next
  show "\<forall>k<length xs. py_int (xs ! k) = Inr (map (\<lambda>x. int (nat_of_digits x)) xs ! k)"
  proof (intro allI impI)
    fix k assume k: "k < length xs"
    then have "length (xs ! k) = 8 \<and> list_all is_digit (xs ! k)" using assms by simp
    then have "xs ! k \<noteq> []" "list_all is_digit (xs ! k)" by auto
    then show "py_int (xs ! k) = Inr (map (\<lambda>x. int (nat_of_digits x)) xs ! k)"
      using py_int_digits k by simp
  qed
qed

lemma aggregate_unfold:
  assumes "files = sample # rest"
    and "get_lat_lon sample = Inr (lat_vec, lon_vec)"
    and "crop_idx lat_vec lat_min lat_max \<noteq> []"
    and "crop_idx lon_vec lon_min lon_max \<noteq> []"
    and "build_daily files [] = Inr d"
  shows "aggregate_one_year folder files lat_min lat_max lon_min lon_max strict =
          (case day_loop folder strict (crop_idx lat_vec lat_min lat_max)
                  (crop_idx lon_vec lon_min lon_max) d (sort (map fst d)) ([], [], []) of
             Inl e \<Rightarrow> Inl e
           | Inr (data_daily, date_list, warned) \<Rightarrow>
               if data_daily = [] then Inr (warned, None)
               else Inr (warned,
                      Some (write_container lat_vec lon_vec (crop_idx lat_vec lat_min lat_max)
                              (crop_idx lon_vec lon_min lon_max) data_daily date_list)))"
  using assms by (simp add: aggregate_one_year_def Let_def)

lemma sorted_keys_digits:
  assumes "build_daily files [] = Inr d"
  shows "\<forall>x\<in>set (sort (map fst d)). length x = 8 \<and> list_all is_digit x"
  using build_daily_keys[OF assms] by simp



lemma read_sm_shape:
  assumes "read_sm fp li lo = Inr a"
  shows "length a = length li \<and> (\<forall>row\<in>set a. length row = length lo)"
  using assms
  by (auto simp: read_sm_def fancy_index_def split: sum.splits if_splits)

lemma map_err_elements:
  "map_err f xs = Inr ys \<Longrightarrow> y \<in> set ys \<Longrightarrow> \<exists>x\<in>set xs. f x = Inr y"
proof (induction xs arbitrary: ys)
  case Nil
  then show ?case by simp
next
  case (Cons x xs)
  then show ?case by (auto split: sum.splits)
qed

lemma daily_raster_shape:
  assumes "daily_raster d day li lo = Inr r" and "li \<noteq> []"
  shows "length r = length li \<and> (\<forall>row\<in>set r. length row = length lo)"
proof -
  obtain g sm_list where g: "dict_get d day day = Inr g"
    and sl: "map_err (\<lambda>u. case dict_get g u u of Inl e \<Rightarrow> Inl e
                              | Inr fp \<Rightarrow> read_sm fp li lo) UTC_CODES = Inr sm_list"
    and r: "r = nanmean_axis0 sm_list"
    using assms(1) by (auto simp: daily_raster_def split: sum.splits)
  have "length sm_list = 8" using map_err_length[OF sl] by (simp add: utc_codes_length)
  then obtain s rest where s: "sm_list = s # rest" by (cases sm_list) auto
  have "\<exists>u\<in>set UTC_CODES. (case dict_get g u u of Inl e \<Rightarrow> Inl e
                              | Inr fp \<Rightarrow> read_sm fp li lo) = Inr s"
    by (rule map_err_elements[OF sl]) (simp add: s)
  then obtain u where "(case dict_get g u u of Inl e \<Rightarrow> Inl e
                              | Inr fp \<Rightarrow> read_sm fp li lo) = Inr s"
    by blast
  then obtain fp where "read_sm fp li lo = Inr s" by (cases "dict_get g u u") auto
  then have sh: "length s = length li" "\<forall>row\<in>set s. length row = length lo"
    using read_sm_shape by blast+
  obtain row0 rows where s0: "s = row0 # rows" using sh(1) assms(2) by (cases s) auto
  have "shape2 s = (length li, length lo)" using sh by (simp add: shape2_def s0)
  then show ?thesis by (auto simp: r s nanmean_axis0_def)
qed

lemma aggregate_written:
  assumes "aggregate_one_year folder files lat_min lat_max lon_min lon_max strict = Inr (ws, Some c)"
  shows "\<exists>lat_vec lon_vec d rs ns.
           get_lat_lon (hd files) = Inr (lat_vec, lon_vec)
           \<and> crop_idx lat_vec lat_min lat_max \<noteq> [] \<and> crop_idx lon_vec lon_min lon_max \<noteq> []
           \<and> build_daily files [] = Inr d
           \<and> map_err (\<lambda>x. daily_raster d x (crop_idx lat_vec lat_min lat_max)
                            (crop_idx lon_vec lon_min lon_max))
                (filter (\<lambda>x. missing_codes d x = []) (sort (map fst d))) = Inr rs
           \<and> map_err py_int (filter (\<lambda>x. missing_codes d x = []) (sort (map fst d))) = Inr ns
           \<and> rs \<noteq> []
           \<and> c = write_container lat_vec lon_vec (crop_idx lat_vec lat_min lat_max)
                   (crop_idx lon_vec lon_min lon_max) rs ns"
proof -
  obtain sample rest where fs: "files = sample # rest"
    using assms by (cases files) (auto simp: aggregate_one_year_def)
  obtain lat_vec lon_vec where g: "get_lat_lon sample = Inr (lat_vec, lon_vec)"
    using assms by (auto simp: aggregate_one_year_def fs split: sum.splits)
  let ?li = "crop_idx lat_vec lat_min lat_max" and ?lo = "crop_idx lon_vec lon_min lon_max"
  have ne: "?li \<noteq> []" "?lo \<noteq> []"
    using assms by (auto simp: aggregate_one_year_def fs g Let_def split: if_splits)
  obtain d where d: "build_daily files [] = Inr d"
    using assms ne by (auto simp: aggregate_one_year_def fs g Let_def split: sum.splits)
  note unf = aggregate_unfold[OF fs g ne d, of folder strict]
  obtain dd dl where dl: "day_loop folder strict ?li ?lo d (sort (map fst d)) ([], [], []) = Inr (dd, dl, ws)"
    and dd: "dd \<noteq> []" and c: "c = write_container lat_vec lon_vec ?li ?lo dd dl"
    using assms unfolding unf by (auto split: sum.splits if_splits)
  from day_loop_result[OF dl] have
    "map_err (\<lambda>x. daily_raster d x ?li ?lo) (filter (\<lambda>x. missing_codes d x = []) (sort (map fst d))) = Inr dd"
    "map_err py_int (filter (\<lambda>x. missing_codes d x = []) (sort (map fst d))) = Inr dl"
    by auto
  then show ?thesis using g ne d dd c fs by auto
qed



section \<open>The example year, step by step\<close>

lemma ex_year_cons: "ex_year = hd ex_year # tl ex_year"
  by code_simp

lemma ex_year_grid:
  "get_lat_lon (hd ex_year) = Inr ([Val 60, Val 40, Val 20], [Val 100, Val 120, Val 140])"
  by code_simp

lemma ex_lat_idx: "crop_idx [Val 60, Val 40, Val 20] 18 54 = [1, 2]"
  by code_simp

lemma ex_lon_idx: "crop_idx [Val 100, Val 120, Val 140] 73 136 = [0, 1]"
  by code_simp

lemma ex_year_daily: "build_daily ex_year [] = Inr ex_daily"
  by code_simp

lemma ex_sorted_days: "sort (map fst ex_daily) = [''20190101''] @ ''20190102'' # [''20190103'']"
  by code_simp

lemma ex_missing1: "missing_codes ex_daily ''20190101'' = []"
  by code_simp

lemma ex_missing2:
  "missing_codes ex_daily ''20190102'' = [''103000'', ''133000'', ''163000'', ''193000'', ''223000'']"
  by code_simp

lemma ex_missing3: "missing_codes ex_daily ''20190103'' = []"
  by code_simp

lemma ex_complete_days:
  "filter (\<lambda>x. missing_codes ex_daily x = []) (sort (map fst ex_daily)) = [''20190101'', ''20190103'']"
  by (simp add: ex_sorted_days ex_missing1 ex_missing2 ex_missing3)

lemma ex_incomplete_days:
  "filter (\<lambda>x. missing_codes ex_daily x \<noteq> []) (sort (map fst ex_daily)) = [''20190102'']"
  by (simp add: ex_sorted_days ex_missing1 ex_missing2 ex_missing3)

lemma ex_day1_raster: "daily_raster ex_daily ''20190101'' [1, 2] [0, 1] = Inr ex_raster1"
  by code_simp

lemma ex_day3_raster: "daily_raster ex_daily ''20190103'' [1, 2] [0, 1] = Inr ex_raster3"
  by code_simp

lemma ex_rasters:
  "map_err (\<lambda>x. daily_raster ex_daily x [1, 2] [0, 1]) [''20190101'', ''20190103'']
     = Inr [ex_raster1, ex_raster3]"
  using ex_day1_raster ex_day3_raster by simp

lemma ex_dates:
  "map (\<lambda>x. int (nat_of_digits x)) [''20190101'', ''20190103''] = [20190101, 20190103]"
  by (simp add: digit_val_def)

lemma ex_written:
  "write_container [Val 60, Val 40, Val 20] [Val 100, Val 120, Val 140] [1, 2] [0, 1]
     [ex_raster1, ex_raster3] [20190101, 20190103] = ex_container"
  by code_simp

lemma ex_year_result:
  "aggregate_one_year ''2019'' ex_year 18 54 73 136 False = Inr ([ex_warning], Some ex_container)"
proof -
  have li: "crop_idx [Val 60, Val 40, Val 20] 18 54 \<noteq> []"
    and lo: "crop_idx [Val 100, Val 120, Val 140] 73 136 \<noteq> []"
    by (simp_all add: ex_lat_idx ex_lon_idx)
  have ns: "map_err py_int [''20190101'', ''20190103''] = Inr [20190101, 20190103]"
    using map_err_py_int[of "[''20190101'', ''20190103'']"] ex_dates
    by (simp add: is_digit_def)
  have dl: "day_loop ''2019'' False [1, 2] [0, 1] ex_daily (sort (map fst ex_daily)) ([], [], [])
          = Inr ([] @ [ex_raster1, ex_raster3], [] @ [20190101, 20190103],
                 [] @ map (\<lambda>day. msg_missing ''2019'' day (missing_codes ex_daily day))
                        (filter (\<lambda>day. missing_codes ex_daily day \<noteq> []) (sort (map fst ex_daily))))"
  proof (rule day_loop_success)
    show "False \<longrightarrow> (\<forall>day\<in>set (sort (map fst ex_daily)). missing_codes ex_daily day = [])"
      by simp
  next
    show "map_err (\<lambda>day. daily_raster ex_daily day [1, 2] [0, 1])
            (filter (\<lambda>day. missing_codes ex_daily day = []) (sort (map fst ex_daily)))
            = Inr [ex_raster1, ex_raster3]"
      unfolding ex_complete_days by (rule ex_rasters)
  next
    show "map_err py_int (filter (\<lambda>day. missing_codes ex_daily day = []) (sort (map fst ex_daily)))
            = Inr [20190101, 20190103]"
      unfolding ex_complete_days by (rule ns)
  qed
  have w: "map (\<lambda>day. msg_missing ''2019'' day (missing_codes ex_daily day))
             (filter (\<lambda>day. missing_codes ex_daily day \<noteq> []) (sort (map fst ex_daily))) = [ex_warning]"
    unfolding ex_incomplete_days by (simp add: ex_missing2 msg_missing_def ex_warning_def)
  show ?thesis
    unfolding aggregate_unfold[OF ex_year_cons ex_year_grid li lo ex_year_daily]
      ex_lat_idx ex_lon_idx dl w
    using ex_written by simp
qed



lemma written_layout:
  assumes "aggregate_one_year folder files lat_min lat_max lon_min lon_max strict = Inr (ws, Some c)"
  shows "\<exists>lat_vec lon_vec d.
           get_lat_lon (hd files) = Inr (lat_vec, lon_vec)
           \<and> build_daily files [] = Inr d
           \<and> latitude c = map (\<lambda>i. lat_vec ! i) (crop_idx lat_vec lat_min lat_max)
           \<and> longitude c = map (\<lambda>i. lon_vec ! i) (crop_idx lon_vec lon_min lon_max)
           \<and> latitude c \<noteq> [] \<and> longitude c \<noteq> []
           \<and> map_err (\<lambda>x. daily_raster d x (crop_idx lat_vec lat_min lat_max)
                            (crop_idx lon_vec lon_min lon_max))
                (filter (\<lambda>x. missing_codes d x = []) (sort (map fst d))) = Inr (sm_rootzone c)
           \<and> time c = map (\<lambda>x. int (nat_of_digits x))
                         (filter (\<lambda>x. missing_codes d x = []) (sort (map fst d)))
           \<and> sm_rootzone c \<noteq> []
           \<and> (\<forall>r\<in>set (sm_rootzone c). length r = length (latitude c)
                  \<and> (\<forall>row\<in>set r. length row = length (longitude c)))
           \<and> data c = map concat (sm_rootzone c)
           \<and> lat_flat c = concat (map (\<lambda>v. replicate (length (longitude c)) v) (latitude c))
           \<and> lon_flat c = concat (replicate (length (latitude c)) (longitude c))"
proof -
  from aggregate_written[OF assms] obtain lat_vec lon_vec d rs ns where
    g: "get_lat_lon (hd files) = Inr (lat_vec, lon_vec)"
    and li: "crop_idx lat_vec lat_min lat_max \<noteq> []" and lo: "crop_idx lon_vec lon_min lon_max \<noteq> []"
    and d: "build_daily files [] = Inr d"
    and rs: "map_err (\<lambda>x. daily_raster d x (crop_idx lat_vec lat_min lat_max)
                            (crop_idx lon_vec lon_min lon_max))
                (filter (\<lambda>x. missing_codes d x = []) (sort (map fst d))) = Inr rs"
    and ns: "map_err py_int (filter (\<lambda>x. missing_codes d x = []) (sort (map fst d))) = Inr ns"
    and ne: "rs \<noteq> []"
    and c: "c = write_container lat_vec lon_vec (crop_idx lat_vec lat_min lat_max)
                   (crop_idx lon_vec lon_min lon_max) rs ns"
    by blast
  let ?li = "crop_idx lat_vec lat_min lat_max" and ?lo = "crop_idx lon_vec lon_min lon_max"
  let ?q = "filter (\<lambda>x. missing_codes d x = []) (sort (map fst d))"
  have "\<forall>x\<in>set ?q. length x = 8 \<and> list_all is_digit x"
    using sorted_keys_digits[OF d] by auto
  then have "map_err py_int ?q = Inr (map (\<lambda>x. int (nat_of_digits x)) ?q)"
    by (rule map_err_py_int)
  then have nsv: "ns = map (\<lambda>x. int (nat_of_digits x)) ?q" using ns by simp
  have sh: "length r = length ?li \<and> (\<forall>row\<in>set r. length row = length ?lo)" if mem: "r \<in> set rs" for r
  proof -
    obtain x where "daily_raster d x ?li ?lo = Inr r"
      using map_err_elements[OF rs mem] by blast
    then show ?thesis using daily_raster_shape li by blast
  qed
  obtain r0 rest where rs0: "rs = r0 # rest" using ne by (cases rs) auto
  have r0: "length r0 = length ?li" "\<forall>row\<in>set r0. length row = length ?lo"
    using sh[of r0] by (simp_all add: rs0)
  obtain row0 rows where r00: "r0 = row0 # rows" using r0(1) li by (cases r0) auto
  have shp: "shape2 (hd rs) = (length ?li, length ?lo)"
    using r0 by (simp add: rs0 shape2_def r00)
  have "\<forall>r\<in>set rs. length (concat r) = length ?li * length ?lo"
    using sh length_concat_rect by metis
  then have dat: "reshape2 (length rs) (length ?li * length ?lo) (ravel3 rs) = map concat rs"
    by (rule reshape2_ravel3)
  show ?thesis
    using g d li lo rs nsv ne sh dat shp
    by (intro exI[of _ lat_vec] exI[of _ lon_vec] exI[of _ d]) (simp add: c write_container_sel)
qed

section \<open>Missing time codes\<close>



section \<open>Dates and rasters of a year container\<close>




section \<open>Flattened rows and coordinates\<close>


text \<open>
  C5. In a container that was written, with H cropped latitudes and W cropped
  longitudes, row \<open>k\<close> of \<open>data\<close> is the row-major flattening of raster \<open>k\<close> of
  \<open>sm_rootzone\<close>: it has H * W entries, entry \<open>i * W + j\<close> is the cell (i, j), and
  cutting it into H rows of W entries gives the raster back.
\<close>

theorem flat_row_roundtrip:
  assumes "aggregate_one_year folder files lat_min lat_max lon_min lon_max strict = Inr (ws, Some c)"
  shows "length (data c) = length (sm_rootzone c)
    \<and> (\<forall>k<length (sm_rootzone c).
          length (sm_rootzone c ! k) = length (latitude c)
          \<and> data c ! k = concat (sm_rootzone c ! k)
          \<and> length (data c ! k) = length (latitude c) * length (longitude c)
          \<and> reshape2 (length (latitude c)) (length (longitude c)) (data c ! k) = sm_rootzone c ! k
          \<and> (\<forall>i<length (latitude c).
                length (sm_rootzone c ! k ! i) = length (longitude c)
                \<and> (\<forall>j<length (longitude c).
                      data c ! k ! (i * length (longitude c) + j) = sm_rootzone c ! k ! i ! j)))"
proof -
  let ?H = "length (latitude c)" and ?W = "length (longitude c)"
  from written_layout[OF assms] have
    sh: "\<forall>r\<in>set (sm_rootzone c). length r = ?H \<and> (\<forall>row\<in>set r. length row = ?W)"
    and dat: "data c = map concat (sm_rootzone c)"
    by blast+
  have each: "length (sm_rootzone c ! k) = ?H
          \<and> data c ! k = concat (sm_rootzone c ! k)
          \<and> length (data c ! k) = ?H * ?W
          \<and> reshape2 ?H ?W (data c ! k) = sm_rootzone c ! k
          \<and> (\<forall>i<?H. length (sm_rootzone c ! k ! i) = ?W
                \<and> (\<forall>j<?W. data c ! k ! (i * ?W + j) = sm_rootzone c ! k ! i ! j))"
    if k: "k < length (sm_rootzone c)" for k
  proof -
    let ?r = "sm_rootzone c ! k"
    have "?r \<in> set (sm_rootzone c)" using k by simp
    then have r: "length ?r = ?H" "\<forall>row\<in>set ?r. length row = ?W"
      using sh by blast+
    have dk: "data c ! k = concat ?r" using k by (simp add: dat)
    have lk: "length (concat ?r) = ?H * ?W"
      using length_concat_rect[OF r(2)] r(1) by simp
    have rt: "reshape2 ?H ?W (concat ?r) = ?r"
      using reshape2_concat_rows[OF r(2)] r(1) by simp
    have cell: "length (?r ! i) = ?W \<and> (\<forall>j<?W. concat ?r ! (i * ?W + j) = ?r ! i ! j)"
      if i: "i < ?H" for i
    proof -
      have "i < length ?r" using i r(1) by simp
      then show ?thesis using concat_rect_nth[OF r(2)] r(2) by simp
    qed
    show ?thesis using r(1) dk lk rt cell by simp
  qed
  show ?thesis using each by (simp add: dat)
qed

theorem flat_row_roundtrip_witness:
  "data ex_container ! 1 = concat (sm_rootzone ex_container ! 1)
   \<and> reshape2 2 2 (data ex_container ! 1) = sm_rootzone ex_container ! 1
   \<and> data ex_container ! 1 ! (1 * 2 + 1) = sm_rootzone ex_container ! 1 ! 1 ! 1"
proof -
  have l: "length (sm_rootzone ex_container) = 2" "length (latitude ex_container) = 2"
    "length (longitude ex_container) = 2"
    by (simp_all add: ex_container_def)
  from flat_row_roundtrip[OF ex_year_result, unfolded l]
  have "\<forall>k<2. length (sm_rootzone ex_container ! k) = 2
          \<and> data ex_container ! k = concat (sm_rootzone ex_container ! k)
          \<and> length (data ex_container ! k) = 2 * 2
          \<and> reshape2 2 2 (data ex_container ! k) = sm_rootzone ex_container ! k
          \<and> (\<forall>i<2. length (sm_rootzone ex_container ! k ! i) = 2
                \<and> (\<forall>j<2. data ex_container ! k ! (i * 2 + j) = sm_rootzone ex_container ! k ! i ! j))"
    by blast
  then have k1: "data ex_container ! 1 = concat (sm_rootzone ex_container ! 1)"
    "reshape2 2 2 (data ex_container ! 1) = sm_rootzone ex_container ! 1"
    "\<forall>i<2. length (sm_rootzone ex_container ! 1 ! i) = 2
                \<and> (\<forall>j<2. data ex_container ! 1 ! (i * 2 + j) = sm_rootzone ex_container ! 1 ! i ! j)"
    by (metis one_less_numeral_iff semiring_norm(76))+
  from k1(3) have "data ex_container ! 1 ! (1 * 2 + 1) = sm_rootzone ex_container ! 1 ! 1 ! 1"
    by (metis one_less_numeral_iff semiring_norm(76))
  then show ?thesis using k1(1,2) by blast
qed

text \<open>
  C4. In a container that was written, \<open>latitude\<close> and \<open>longitude\<close> are the cropped
  vectors of the reference grid; with W the number of cropped longitudes, \<open>lat_flat ! i\<close>
  is the cropped latitude \<open>i div W\<close> and \<open>lon_flat ! i\<close> the cropped longitude \<open>i mod W\<close>,
  for every flat index \<open>i\<close>, and entry \<open>i\<close> of every row of \<open>data\<close> is the cell
  (\<open>i div W\<close>, \<open>i mod W\<close>) of the raster of that day.
\<close>

theorem flat_coordinates:
  assumes "aggregate_one_year folder files lat_min lat_max lon_min lon_max strict = Inr (ws, Some c)"
  shows "(\<exists>lat_vec lon_vec.
            get_lat_lon (hd files) = Inr (lat_vec, lon_vec)
            \<and> latitude c = map (\<lambda>i. lat_vec ! i) (crop_idx lat_vec lat_min lat_max)
            \<and> longitude c = map (\<lambda>i. lon_vec ! i) (crop_idx lon_vec lon_min lon_max))
    \<and> length (lat_flat c) = length (latitude c) * length (longitude c)
    \<and> length (lon_flat c) = length (latitude c) * length (longitude c)
    \<and> (\<forall>i<length (latitude c) * length (longitude c).
          lat_flat c ! i = latitude c ! (i div length (longitude c))
          \<and> lon_flat c ! i = longitude c ! (i mod length (longitude c))
          \<and> (\<forall>k<length (sm_rootzone c).
                data c ! k ! i
                  = sm_rootzone c ! k ! (i div length (longitude c)) ! (i mod length (longitude c))))"
proof -
  let ?H = "length (latitude c)" and ?W = "length (longitude c)"
  from written_layout[OF assms] obtain lat_vec lon_vec where
    g: "get_lat_lon (hd files) = Inr (lat_vec, lon_vec)"
    and la: "latitude c = map (\<lambda>i. lat_vec ! i) (crop_idx lat_vec lat_min lat_max)"
    and lo: "longitude c = map (\<lambda>i. lon_vec ! i) (crop_idx lon_vec lon_min lon_max)"
    and sh: "\<forall>r\<in>set (sm_rootzone c). length r = ?H \<and> (\<forall>row\<in>set r. length row = ?W)"
    and dat: "data c = map concat (sm_rootzone c)"
    and lf: "lat_flat c = concat (map (\<lambda>v. replicate ?W v) (latitude c))"
    and of: "lon_flat c = concat (replicate ?H (longitude c))"
    by blast
  have rl: "\<forall>row\<in>set (map (\<lambda>v. replicate ?W v) (latitude c)). length row = ?W" by simp
  have ro: "\<forall>row\<in>set (replicate ?H (longitude c)). length row = ?W" by simp
  have len1: "length (lat_flat c) = ?H * ?W"
    unfolding lf using length_concat_rect[OF rl] by simp
  have len2: "length (lon_flat c) = ?H * ?W"
    unfolding of using length_concat_rect[OF ro] by simp
  have each: "lat_flat c ! i = latitude c ! (i div ?W)
          \<and> lon_flat c ! i = longitude c ! (i mod ?W)
          \<and> (\<forall>k<length (sm_rootzone c). data c ! k ! i = sm_rootzone c ! k ! (i div ?W) ! (i mod ?W))"
    if i: "i < ?H * ?W" for i
  proof -
    have w: "0 < ?W" using i by (cases "?W") auto
    have d: "i div ?W < ?H" using i w by (simp add: less_mult_imp_div_less)
    have m: "i mod ?W < ?W" using w by simp
    have "lat_flat c ! i = map (\<lambda>v. replicate ?W v) (latitude c) ! (i div ?W) ! (i mod ?W)"
      unfolding lf by (rule concat_rect_nth_flat[OF rl]) (use i in simp)
    then have a: "lat_flat c ! i = latitude c ! (i div ?W)" using d m by simp
    have "lon_flat c ! i = replicate ?H (longitude c) ! (i div ?W) ! (i mod ?W)"
      unfolding of by (rule concat_rect_nth_flat[OF ro]) (use i in simp)
    then have b: "lon_flat c ! i = longitude c ! (i mod ?W)" using d by simp
    have cc: "data c ! k ! i = sm_rootzone c ! k ! (i div ?W) ! (i mod ?W)"
      if k: "k < length (sm_rootzone c)" for k
    proof -
      have "sm_rootzone c ! k \<in> set (sm_rootzone c)" using k by simp
      then have r: "length (sm_rootzone c ! k) = ?H" "\<forall>row\<in>set (sm_rootzone c ! k). length row = ?W"
        using sh by blast+
      have "concat (sm_rootzone c ! k) ! i = sm_rootzone c ! k ! (i div ?W) ! (i mod ?W)"
        by (rule concat_rect_nth_flat[OF r(2)]) (use i r(1) in simp)
      then show ?thesis using k by (simp add: dat)
    qed
    show ?thesis using a b cc by blast
  qed
  show ?thesis using g la lo len1 len2 each by blast
qed

theorem flat_coordinates_witness:
  "lat_flat ex_container ! 2 = latitude ex_container ! (2 div 2)
   \<and> lon_flat ex_container ! 2 = longitude ex_container ! (2 mod 2)
   \<and> data ex_container ! 0 ! 2 = sm_rootzone ex_container ! 0 ! (2 div 2) ! (2 mod 2)"
proof -
  have l: "length (sm_rootzone ex_container) = 2" "length (latitude ex_container) = 2"
    "length (longitude ex_container) = 2"
    by (simp_all add: ex_container_def)
  from flat_coordinates[OF ex_year_result, unfolded l]
  have "\<forall>i<2 * 2. lat_flat ex_container ! i = latitude ex_container ! (i div 2)
          \<and> lon_flat ex_container ! i = longitude ex_container ! (i mod 2)
          \<and> (\<forall>k<2. data ex_container ! k ! i = sm_rootzone ex_container ! k ! (i div 2) ! (i mod 2))"
    by blast
  moreover have "(2::nat) < 2 * 2" "(0::nat) < 2" by simp_all
  ultimately show ?thesis by blast
qed

section \<open>The coordinate check of the merge\<close>


lemma merge_loop_checked:
  assumes "merge_loop fs lo hi (da, ta, Some (la, lb)) = Inr st"
  shows "(\<forall>f. Some f \<in> set fs \<longrightarrow>
            allclose la (lat_flat f) = Inr True \<and> allclose lb (lon_flat f) = Inr True)
         \<and> snd (snd st) = Some (la, lb)"
  using assms
proof (induction fs arbitrary: da ta)
  case Nil
  then show ?case by auto
next
  case (Cons fo fs)
  obtain f where fo: "fo = Some f" using Cons.prems by (cases fo) auto
  have len: "length (data f) = length (time f)"
    using Cons.prems by (auto simp: fo Let_def split: if_splits)
  have a: "allclose la (lat_flat f) = Inr True"
    using Cons.prems len by (auto simp: fo Let_def split: sum.splits if_splits)
  have b: "allclose lb (lon_flat f) = Inr True"
    using Cons.prems len a by (auto simp: fo Let_def split: sum.splits if_splits)
  have "merge_loop fs lo hi
          (da @ [select_mask (map (\<lambda>t. lo \<le> t \<and> t \<le> hi) (time f)) (data f)],
           ta @ [select_mask (map (\<lambda>t. lo \<le> t \<and> t \<le> hi) (time f)) (time f)],
           Some (la, lb)) = Inr st"
    using Cons.prems len a b by (simp add: fo Let_def)
  from Cons.IH[OF this] show ?case using a b by (auto simp: fo)
qed

lemma merge_years_checked:
  assumes "merge_years files lo hi = Inr m"
  shows "\<exists>f0 rest. files = Some f0 # rest
           \<and> m_lat_flat m = lat_flat f0 \<and> m_lon_flat m = lon_flat f0
           \<and> (\<forall>f. Some f \<in> set rest \<longrightarrow>
                  allclose (lat_flat f0) (lat_flat f) = Inr True
                  \<and> allclose (lon_flat f0) (lon_flat f) = Inr True)"
proof -
  obtain da ta co where l: "merge_loop files lo hi ([], [], None) = Inr (da, ta, co)"
    using assms by (auto simp: merge_years_def split: sum.splits)
  have "files \<noteq> []"
    using assms by (auto simp: merge_years_def concatenate_rows_def split: sum.splits)
  then obtain fo rest where fs: "files = fo # rest" by (cases files) auto
  obtain f0 where fo: "fo = Some f0" using l by (cases fo) (auto simp: fs)
  have len: "length (data f0) = length (time f0)"
    using l by (auto simp: fs fo Let_def split: if_splits)
  have l2: "merge_loop rest lo hi
          ([select_mask (map (\<lambda>t. lo \<le> t \<and> t \<le> hi) (time f0)) (data f0)],
           [select_mask (map (\<lambda>t. lo \<le> t \<and> t \<le> hi) (time f0)) (time f0)],
           Some (lat_flat f0, lon_flat f0)) = Inr (da, ta, co)"
    using l len by (simp add: fs fo Let_def)
  from merge_loop_checked[OF l2] have
    ch: "\<forall>f. Some f \<in> set rest \<longrightarrow>
            allclose (lat_flat f0) (lat_flat f) = Inr True \<and> allclose (lon_flat f0) (lon_flat f) = Inr True"
    and co: "co = Some (lat_flat f0, lon_flat f0)"
    by auto
  have "m_lat_flat m = lat_flat f0 \<and> m_lon_flat m = lon_flat f0"
    using assms l co by (auto simp: merge_years_def split: sum.splits)
  then show ?thesis using fs fo ch by blast
qed

lemma allclose_same_length:
  assumes "length a = length b"
  shows "allclose a b = Inr (\<forall>i<length a. isclose (a ! i) (b ! i))"
  using assms by (simp add: allclose_def list_all2_conv_all_nth)

lemma isclose_values:
  "isclose (Val x) (Val y) \<longleftrightarrow> \<bar>x - y\<bar> \<le> 1 / 100000000 + \<bar>y\<bar> / 100000"
  by (simp add: isclose_def atol_def rtol_def)

lemma isclose_nan: "\<not> isclose NaN v" "\<not> isclose v NaN"
  by (cases v; simp add: isclose_def)+

text \<open>
  C1, as the code has it. The coordinate arrays of every later container are compared
  with those of the first by \<open>np.allclose\<close>, element for element within the tolerance
  \<open>|a - b| \<le> 1e-8 + 1e-5 * |b|\<close>, NaN never close. A merge that writes its output has
  passed this check for every later container, and the output carries the arrays of the
  first one; a coordinate outside the tolerance makes the merge raise, and nothing is
  written.
\<close>

theorem coordinate_check:
  "(merge_years files lo hi = Inr m \<longrightarrow>
      (\<exists>f0 rest. files = Some f0 # rest
           \<and> m_lat_flat m = lat_flat f0 \<and> m_lon_flat m = lon_flat f0
           \<and> (\<forall>f. Some f \<in> set rest \<longrightarrow>
                  allclose (lat_flat f0) (lat_flat f) = Inr True
                  \<and> allclose (lon_flat f0) (lon_flat f) = Inr True)))
   \<and> (Some f \<in> set rest \<and> length (lat_flat f) = length (lat_flat f0) \<and> i < length (lat_flat f0)
        \<and> \<not> isclose (lat_flat f0 ! i) (lat_flat f ! i)
      \<longrightarrow> (\<exists>e. merge_years (Some f0 # rest) lo hi = Inl e))
   \<and> (Some f \<in> set rest \<and> length (lon_flat f) = length (lon_flat f0) \<and> i < length (lon_flat f0)
        \<and> \<not> isclose (lon_flat f0 ! i) (lon_flat f ! i)
      \<longrightarrow> (\<exists>e. merge_years (Some f0 # rest) lo hi = Inl e))
   \<and> (isclose (Val x) (Val y) \<longleftrightarrow> \<bar>x - y\<bar> \<le> 1 / 100000000 + \<bar>y\<bar> / 100000)
   \<and> \<not> isclose NaN v \<and> \<not> isclose v NaN"
proof (intro conjI impI)
  assume "merge_years files lo hi = Inr m"
  then show "\<exists>f0 rest. files = Some f0 # rest
           \<and> m_lat_flat m = lat_flat f0 \<and> m_lon_flat m = lon_flat f0
           \<and> (\<forall>f. Some f \<in> set rest \<longrightarrow>
                  allclose (lat_flat f0) (lat_flat f) = Inr True
                  \<and> allclose (lon_flat f0) (lon_flat f) = Inr True)"
    by (rule merge_years_checked)
next
  assume h: "Some f \<in> set rest \<and> length (lat_flat f) = length (lat_flat f0) \<and> i < length (lat_flat f0)
        \<and> \<not> isclose (lat_flat f0 ! i) (lat_flat f ! i)"
  show "\<exists>e. merge_years (Some f0 # rest) lo hi = Inl e"
  proof (cases "merge_years (Some f0 # rest) lo hi")
    case (Inl e)
    then show ?thesis by blast
  next
    case (Inr m')
    from merge_years_checked[OF Inr] have "allclose (lat_flat f0) (lat_flat f) = Inr True"
      using h by auto
    then have "\<forall>i<length (lat_flat f0). isclose (lat_flat f0 ! i) (lat_flat f ! i)"
      using h allclose_same_length[of "lat_flat f0" "lat_flat f"] by simp
    then show ?thesis using h by blast
  qed
next
  assume h: "Some f \<in> set rest \<and> length (lon_flat f) = length (lon_flat f0) \<and> i < length (lon_flat f0)
        \<and> \<not> isclose (lon_flat f0 ! i) (lon_flat f ! i)"
  show "\<exists>e. merge_years (Some f0 # rest) lo hi = Inl e"
  proof (cases "merge_years (Some f0 # rest) lo hi")
    case (Inl e)
    then show ?thesis by blast
  next
    case (Inr m')
    from merge_years_checked[OF Inr] have "allclose (lon_flat f0) (lon_flat f) = Inr True"
      using h by auto
    then have "\<forall>i<length (lon_flat f0). isclose (lon_flat f0 ! i) (lon_flat f ! i)"
      using h allclose_same_length[of "lon_flat f0" "lon_flat f"] by simp
    then show ?thesis using h by blast
  qed
qed (simp_all add: isclose_values isclose_nan)


theorem coordinate_check_witness:
  "(\<exists>e. merge_years [Some ex_c15, Some ex_c16_far] start_day end_day = Inl e)
   \<and> isclose (Val 10) (Val (10 + 1 / 131072)) \<and> \<not> isclose (Val 10) (Val 11)"
proof -
  have m: "Some ex_c16_far \<in> set [Some ex_c16_far]" by simp
  have l: "length (lat_flat ex_c16_far) = length (lat_flat ex_c15)" "0 < length (lat_flat ex_c15)"
    "lat_flat ex_c15 ! 0 = Val 10" "lat_flat ex_c16_far ! 0 = Val 11"
    by (simp_all add: ex_c15_def ex_c16_far_def ex_yc_def)
  note t = coordinate_check[of "[]" start_day end_day
      "\<lparr>m_data = [], m_time = [], m_lat_flat = [], m_lon_flat = [], m_flattened = True\<rparr>" ex_c16_far "[Some ex_c16_far]"
      ex_c15 0 10 11 NaN]
  have far: "\<not> isclose (Val 10) (Val 11)" using t by simp
  have "\<exists>e. merge_years [Some ex_c15, Some ex_c16_far] start_day end_day = Inl e"
    using t m l far by simp
  moreover have "isclose (Val 10) (Val (10 + 1 / 131072))"
    using coordinate_check[of "[]" start_day end_day
      "\<lparr>m_data = [], m_time = [], m_lat_flat = [], m_lon_flat = [], m_flattened = True\<rparr>" ex_c16_far "[Some ex_c16_far]"
      ex_c15 0 10 "10 + 1 / 131072" NaN]
    by simp
  ultimately show ?thesis using far by blast
qed

text \<open>
  C1 as the spec words it fails: the latitudes 10 and 10 + 1/131072 differ, both are
  float32 numbers, and the merge accepts them and writes its output.
\<close>

theorem coordinate_tolerance_counterexample:
  "lat_flat ex_c16_near ! 0 \<noteq> lat_flat ex_c15 ! 0
   \<and> merge_years [Some ex_c15, Some ex_c16_near] start_day end_day
       = Inr \<lparr>m_data = [[Val 3, Val 4], [Val 5, Val 6]], m_time = [20150331, 20160101],
              m_lat_flat = [Val 10, Val 10], m_lon_flat = [Val 100, Val 110], m_flattened = True\<rparr>"
  by code_simp

end
